theory Spec2Isabelle
  imports Complex_Main "HOL-Library.Sublist"
begin

section \<open>Strings\<close>

text \<open>
  A JavaScript string is a sequence of UTF-16 code units. It is modelled as a \<^typ>\<open>string\<close>,
  one \<^typ>\<open>char\<close> per code unit, which is exact for strings whose code units are below 256;
  every function of the source modelled here compares code units with ASCII characters only.
\<close>

definition backslash :: char where "backslash = CHR 0x5C"
definition dquote :: char where "dquote = CHR 0x22"
definition newline :: char where "newline = CHR 0x0A"
definition creturn :: char where "creturn = CHR 0x0D"
definition tab :: char where "tab = CHR 0x09"

text \<open>\<^verbatim>\<open>s.replace(/c/g, rep)\<close> for a pattern that is one literal character and a replacement
  without \<^verbatim>\<open>$\<close>: every occurrence of \<open>c\<close>, left to right, becomes \<open>rep\<close>.\<close>

definition replace_all :: "char \<Rightarrow> string \<Rightarrow> string \<Rightarrow> string" where
  "replace_all c rep s = concat (map (\<lambda>x. if x = c then rep else [x]) s)"

text \<open>The white space and line terminator code units of ECMAScript below 256: TAB, LF, VT,
  FF, CR, SP and NBSP.\<close>

definition whitespace :: "char \<Rightarrow> bool" where
  "whitespace c = (c \<in> {tab, newline, CHR 0x0B, CHR 0x0C, creturn, CHR '' '', CHR 0xA0})"

text \<open>\<^verbatim>\<open>s.trim()\<close>.\<close>

definition trim :: "string \<Rightarrow> string" where
  "trim s = rev (dropWhile whitespace (rev (dropWhile whitespace s)))"

text \<open>\<^verbatim>\<open>s.includes(pat)\<close> and \<^verbatim>\<open>s.startsWith(pat)\<close>.\<close>

fun str_includes :: "string \<Rightarrow> string \<Rightarrow> bool" where
  "str_includes [] pat = (pat = [])"
| "str_includes (c # cs) pat = (prefix pat (c # cs) \<or> str_includes cs pat)"

definition startsWith :: "string \<Rightarrow> string \<Rightarrow> bool" where
  "startsWith s pat = prefix pat s"

text \<open>\<^verbatim>\<open>s.split(c)\<close> for a one-character separator: never an empty array.\<close>

fun str_split :: "char \<Rightarrow> string \<Rightarrow> string list" where
  "str_split c [] = [[]]"
| "str_split c (x # xs) =
     (if x = c then [] # str_split c xs
      else (case str_split c xs of l # ls \<Rightarrow> (x # l) # ls | [] \<Rightarrow> [[x]]))"

text \<open>\<^verbatim>\<open>s.replace(pat, rep)\<close> for a string pattern and a replacement without \<^verbatim>\<open>$\<close>: the first
  occurrence of \<open>pat\<close> becomes \<open>rep\<close>; a string without \<open>pat\<close> is returned as it is.\<close>

fun replace_first :: "string \<Rightarrow> string \<Rightarrow> string \<Rightarrow> string" where
  "replace_first pat rep [] = (if pat = [] then rep else [])"
| "replace_first pat rep (c # cs) =
     (if prefix pat (c # cs) then rep @ drop (length pat) (c # cs)
      else c # replace_first pat rep cs)"

text \<open>The decimal digits of a number, as a template literal prints \<^verbatim>\<open>Date.now()\<close>.\<close>

function decimal :: "nat \<Rightarrow> string" where
  "decimal n =
     (if n < 10 then [''0123456789'' ! n]
      else decimal (n div 10) @ [''0123456789'' ! (n mod 10)])"
  by pat_completeness auto
termination
  by (relation "measure id") auto

declare decimal.simps [simp del]

section \<open>LLMHelper.analyzeAudioFromBase64: escaping the transcription\<close>

text \<open>Lines 263-268 of \<^verbatim>\<open>electron/LLMHelper.ts\<close>: five global replacements, in this order.\<close>

definition escapedTranscription :: "string \<Rightarrow> string" where
  "escapedTranscription transcription =
     replace_all tab [backslash, CHR ''t'']
       (replace_all creturn [backslash, CHR ''r'']
         (replace_all newline [backslash, CHR ''n'']
           (replace_all dquote [backslash, dquote]
             (replace_all backslash [backslash, backslash] transcription))))"

text \<open>The escaped form of one character, as the comments of lines 264-268 name them.\<close>

definition escape_char :: "char \<Rightarrow> string" where
  "escape_char c =
     (if c = backslash then [backslash, backslash]
      else if c = dquote then [backslash, dquote]
      else if c = newline then [backslash, CHR ''n'']
      else if c = creturn then [backslash, CHR ''r'']
      else if c = tab then [backslash, CHR ''t'']
      else [c])"

lemmas special_chars = backslash_def dquote_def newline_def creturn_def tab_def

lemma replace_all_Nil: "replace_all c rep [] = []"
  by (simp add: replace_all_def)

lemma replace_all_append: "replace_all c rep (xs @ ys) = replace_all c rep xs @ replace_all c rep ys"
  by (simp add: replace_all_def)

lemma replace_all_Cons:
  "replace_all c rep (x # xs) = (if x = c then rep else [x]) @ replace_all c rep xs"
  by (simp add: replace_all_def)

lemma escapedTranscription_Nil: "escapedTranscription [] = []"
  by (simp add: escapedTranscription_def replace_all_Nil)

lemma escapedTranscription_Cons:
  "escapedTranscription (x # xs) = escape_char x @ escapedTranscription xs"
  by (simp add: escapedTranscription_def escape_char_def replace_all_Cons replace_all_append
      replace_all_Nil special_chars)

lemma escapedTranscription_concat:
  "escapedTranscription s = concat (map escape_char s)"
  by (induction s) (simp_all add: escapedTranscription_Nil escapedTranscription_Cons)

text \<open>
  Claim C6. For every transcription, the five replacements together replace each backslash,
  double quote, newline, carriage return and tab by its two-character escaped form and leave
  every other character alone: the result is the concatenation of the escaped forms of the
  characters of the input, so no character produced by one replacement is escaped again by a
  later one. In particular \<^verbatim>\<open>He said "hi"\<close> followed by a newline becomes
  \<^verbatim>\<open>He said \"hi\"\<close> followed by a backslash and \<^verbatim>\<open>n\<close>.
\<close>

theorem escaping_single_pass:
  "escapedTranscription s = concat (map escape_char s)
   \<and> escape_char backslash = [backslash, backslash]
   \<and> escape_char dquote = [backslash, dquote]
   \<and> escape_char newline = [backslash, CHR ''n'']
   \<and> escape_char creturn = [backslash, CHR ''r'']
   \<and> escape_char tab = [backslash, CHR ''t'']
   \<and> (c \<notin> {backslash, dquote, newline, creturn, tab} \<longrightarrow> escape_char c = [c])
   \<and> escapedTranscription (''He said '' @ [dquote] @ ''hi'' @ [dquote, newline])
       = ''He said '' @ [backslash, dquote] @ ''hi'' @ [backslash, dquote, backslash, CHR ''n'']"
  by (simp add: escapedTranscription_concat) (simp add: escape_char_def special_chars)

theorem escaping_single_pass_witness:
  "escapedTranscription [CHR ''a'', backslash, CHR ''n'', tab]
     = [CHR ''a'', backslash, backslash, CHR ''n'', backslash, CHR ''t'']
   \<and> CHR ''a'' \<notin> {backslash, dquote, newline, creturn, tab} \<and> escape_char CHR ''a'' = ''a''"
  using escaping_single_pass [of "[CHR ''a'', backslash, CHR ''n'', tab]" "CHR ''a''"]
  by (simp add: escape_char_def special_chars)

section \<open>QueueCommands.simulateLiveTranscription: the progressive reveal\<close>

record LiveTranscriptionState =
  fullText :: string
  displayedText :: string
  currentIndex :: nat
  messageId :: string

text \<open>\<^verbatim>\<open>s[i]\<close>: the code unit at index \<open>i\<close>, \<^verbatim>\<open>undefined\<close> (here \<open>None\<close>) outside the string.\<close>

definition charAt :: "string \<Rightarrow> nat \<Rightarrow> char option" where
  "charAt s i = (if i < length s then Some (s ! i) else None)"

fun index_in :: "char \<Rightarrow> string \<Rightarrow> nat option" where
  "index_in c [] = None"
| "index_in c (x # xs) = (if x = c then Some 0 else map_option Suc (index_in c xs))"

text \<open>\<^verbatim>\<open>s.indexOf(c, from)\<close> for a one-character needle; \<open>None\<close> stands for \<^verbatim>\<open>-1\<close>.\<close>

definition indexOf :: "string \<Rightarrow> char \<Rightarrow> nat \<Rightarrow> nat option" where
  "indexOf s c from = map_option (\<lambda>i. from + i) (index_in c (drop from s))"

text \<open>Lines 151-156: the number of characters a tick plans to add.\<close>

definition charsToAdd :: "string \<Rightarrow> nat \<Rightarrow> nat" where
  "charsToAdd text i =
     (let remainingChars = length text - i
      in if remainingChars > 100 then 3 else if remainingChars > 50 then 2 else 1)"

text \<open>Line 159: the candidate cut point.\<close>

definition nextIndex :: "string \<Rightarrow> nat \<Rightarrow> nat" where
  "nextIndex text i = min (i + charsToAdd text i) (length text)"

text \<open>Lines 160-170, for a state with \<open>currentIndex < fullText.length\<close>.\<close>

definition adjustedIndex :: "string \<Rightarrow> nat \<Rightarrow> nat" where
  "adjustedIndex text i =
     (let nextChar = charAt text (nextIndex text i);
          currentChar = charAt text (i + charsToAdd text i - 1)
      in if nextChar \<noteq> None \<and> nextChar \<noteq> Some CHR '' '' \<and> currentChar \<noteq> Some CHR '' ''
         then (case indexOf text CHR '' '' (nextIndex text i) of
                 Some spaceIndex \<Rightarrow>
                   if spaceIndex - nextIndex text i < 10 then spaceIndex else nextIndex text i
               | None \<Rightarrow> nextIndex text i)
         else nextIndex text i)"

text \<open>
  The state updater of \<^verbatim>\<open>animateText\<close> (lines 128-177) for the animation started with
  message id \<open>mid\<close>. The second component is the text appended to the transcript as an
  answer when the animation completes.
\<close>

definition animateText :: "string \<Rightarrow> LiveTranscriptionState option \<Rightarrow>
    LiveTranscriptionState option \<times> string option" where
  "animateText mid prev =
     (case prev of
        None \<Rightarrow> (None, None)
      | Some p \<Rightarrow>
          if messageId p \<noteq> mid then (prev, None)
          else if currentIndex p \<ge> length (fullText p) then (None, Some (fullText p))
          else (Some (p\<lparr>displayedText := take (adjustedIndex (fullText p) (currentIndex p)) (fullText p),
                          currentIndex := adjustedIndex (fullText p) (currentIndex p)\<rparr>), None))"

lemma index_in_Some:
  "index_in c xs = Some j \<Longrightarrow> j < length xs \<and> xs ! j = c \<and> (\<forall>k<j. xs ! k \<noteq> c)"
proof (induction xs arbitrary: j)
  case Nil
  then show ?case by simp
next
  case (Cons x xs)
  show ?case
  proof (cases "x = c")
    case True
    with Cons.prems show ?thesis by simp
  next
    case False
    with Cons.prems obtain j' where j': "index_in c xs = Some j'" "j = Suc j'"
      by auto
    from Cons.IH [OF j'(1)] False j'(2) show ?thesis
      by (auto simp: nth_Cons split: nat.splits)
  qed
qed

lemma index_in_None: "index_in c xs = None \<longleftrightarrow> c \<notin> set xs"
  by (induction xs) auto

lemma index_in_first:
  "j < length xs \<Longrightarrow> xs ! j = c \<Longrightarrow> \<forall>k<j. xs ! k \<noteq> c \<Longrightarrow> index_in c xs = Some j"
proof -
  assume a: "j < length xs" "xs ! j = c" "\<forall>k<j. xs ! k \<noteq> c"
  then have "c \<in> set xs" by auto
  then obtain j' where j': "index_in c xs = Some j'"
    using index_in_None [of c xs] by (cases "index_in c xs") auto
  from index_in_Some [OF j'] a have "j' = j"
    by (metis linorder_neqE_nat)
  with j' show ?thesis by simp
qed

lemma indexOf_Some:
  "indexOf s c n = Some j \<Longrightarrow> n \<le> j \<and> j < length s \<and> s ! j = c \<and> (\<forall>k. n \<le> k \<and> k < j \<longrightarrow> s ! k \<noteq> c)"
proof -
  assume "indexOf s c n = Some j"
  then obtain i where i: "index_in c (drop n s) = Some i" "j = n + i"
    by (auto simp: indexOf_def)
  from index_in_Some [OF i(1)] have 1: "i < length s - n" "s ! (n + i) = c" "\<forall>k<i. s ! (n + k) \<noteq> c"
    by auto
  have "s ! k \<noteq> c" if "n \<le> k" "k < j" for k
    using 1(3) that i(2) by (metis add.commute less_diff_conv2 ordered_cancel_comm_monoid_diff_class.add_diff_inverse)
  with 1 i(2) show ?thesis by auto
qed

lemma indexOf_first:
  assumes "n \<le> j" "j < length s" "s ! j = c" "\<forall>k. n \<le> k \<and> k < j \<longrightarrow> s ! k \<noteq> c"
  shows "indexOf s c n = Some j"
proof -
  have "index_in c (drop n s) = Some (j - n)"
    using assms by (intro index_in_first) auto
  with assms(1) show ?thesis by (simp add: indexOf_def)
qed

lemma charsToAdd_bounds: "1 \<le> charsToAdd text i \<and> charsToAdd text i \<le> 3"
  by (simp add: charsToAdd_def Let_def)

lemma charsToAdd_le: "i < length text \<Longrightarrow> i + charsToAdd text i \<le> length text"
  unfolding charsToAdd_def Let_def by (cases "100 < length text - i"; cases "50 < length text - i"; simp)

lemma nextIndex_eq: "i < length text \<Longrightarrow> nextIndex text i = i + charsToAdd text i"
  using charsToAdd_le [of i "text"] by (simp add: nextIndex_def)

lemma nextIndex_gt: "i < length text \<Longrightarrow> i < nextIndex text i"
  using charsToAdd_bounds [of "text" i] by (simp add: nextIndex_eq)

lemma adjustedIndex_ge: "nextIndex text i \<le> adjustedIndex text i"
  by (auto simp: adjustedIndex_def Let_def split: option.splits dest: indexOf_Some)

lemma adjustedIndex_le: "adjustedIndex text i \<le> length text"
  by (auto simp: adjustedIndex_def Let_def nextIndex_def split: option.splits dest!: indexOf_Some)

lemma adjustedIndex_gt: "i < length text \<Longrightarrow> i < adjustedIndex text i"
  using nextIndex_gt [of i "text"] adjustedIndex_ge [of "text" i] by simp

text \<open>The texts displayed by the successive ticks of the animation, from index \<open>i\<close> on.\<close>

function reveal_from :: "string \<Rightarrow> nat \<Rightarrow> string list" where
  "reveal_from text i =
     (if i < length text
      then take (adjustedIndex text i) text # reveal_from text (adjustedIndex text i)
      else [])"
  by pat_completeness auto
termination
  by (relation "measure (\<lambda>(text, i). length text - i)") (auto simp: adjustedIndex_gt diff_less_mono2)

declare reveal_from.simps [simp del]


text \<open>
  Vocabulary for the claim. A cut at \<open>n\<close> lands inside a word when the characters on both
  sides of it are not spaces; \<open>j\<close> is the next space at or after \<open>n\<close>. The source tests
  the space character only; \<open>whitespace\<close> and \<open>spec_reveal_claim\<close> follow the words of
  the specification, which speak of whitespace.
\<close>

definition cut_inside_word :: "string \<Rightarrow> nat \<Rightarrow> bool" where
  "cut_inside_word text n =
     (n < length text \<and> text ! n \<noteq> CHR '' '' \<and> text ! (n - 1) \<noteq> CHR '' '')"

definition next_space_at :: "string \<Rightarrow> nat \<Rightarrow> nat \<Rightarrow> bool" where
  "next_space_at text n j =
     (n \<le> j \<and> j < length text \<and> text ! j = CHR '' ''
      \<and> (\<forall>k. n \<le> k \<and> k < j \<longrightarrow> text ! k \<noteq> CHR '' ''))"

definition spec_reveal_claim :: "string \<Rightarrow> nat \<Rightarrow> bool" where
  "spec_reveal_claim text i =
     (\<forall>j. nextIndex text i < length text
          \<and> \<not> whitespace (text ! nextIndex text i) \<and> \<not> whitespace (text ! (nextIndex text i - 1))
          \<and> nextIndex text i \<le> j \<and> j < length text \<and> whitespace (text ! j)
          \<and> (\<forall>k. nextIndex text i \<le> k \<and> k < j \<longrightarrow> \<not> whitespace (text ! k))
          \<and> j - nextIndex text i < 10
          \<longrightarrow> adjustedIndex text i = j)"

lemma next_space_at_indexOf: "next_space_at text n j \<longleftrightarrow> indexOf text CHR '' '' n = Some j"
  unfolding next_space_at_def
  using indexOf_Some [of "text" "CHR '' ''" n j] indexOf_first [of n j "text" "CHR '' ''"]
  by blast

lemma adjustedIndex_extended:
  assumes "i < length text" "cut_inside_word text (nextIndex text i)"
    "next_space_at text (nextIndex text i) j" "j - nextIndex text i < 10"
  shows "adjustedIndex text i = j"
proof -
  have n: "nextIndex text i = i + charsToAdd text i"
    using assms(1) by (rule nextIndex_eq)
  have "indexOf text CHR '' '' (nextIndex text i) = Some j"
    using assms(3) by (simp add: next_space_at_indexOf)
  then show ?thesis
    using assms(2,4) n by (simp add: adjustedIndex_def Let_def charAt_def cut_inside_word_def)
qed

lemma adjustedIndex_planned:
  assumes "i < length text"
    "\<not> (cut_inside_word text (nextIndex text i)
        \<and> (\<exists>j. next_space_at text (nextIndex text i) j \<and> j - nextIndex text i < 10))"
  shows "adjustedIndex text i = nextIndex text i"
proof -
  have n: "nextIndex text i = i + charsToAdd text i"
    using assms(1) by (rule nextIndex_eq)
  have lt: "i + charsToAdd text i - 1 < length text"
    using charsToAdd_le [OF assms(1)] charsToAdd_bounds [of "text" i] by linarith
  show ?thesis
  proof (cases "cut_inside_word text (nextIndex text i)")
    case True
    with assms(2) have "\<And>j. indexOf text CHR '' '' (nextIndex text i) = Some j
        \<Longrightarrow> \<not> j - nextIndex text i < 10"
      by (auto simp: next_space_at_indexOf)
    then show ?thesis
      by (auto simp: adjustedIndex_def Let_def split: option.splits)
  next
    case False
    then show ?thesis
      using n lt by (auto simp: adjustedIndex_def Let_def charAt_def cut_inside_word_def)
  qed
qed

lemma reveal_from_animateText:
  assumes "messageId p = mid"
  shows "reveal_from (fullText p) (currentIndex p) =
     (case fst (animateText mid (Some p)) of
        Some p' \<Rightarrow> displayedText p' # reveal_from (fullText p') (currentIndex p')
      | None \<Rightarrow> [])"
  using assms by (simp add: animateText_def reveal_from.simps [of "fullText p"])

text \<open>
  Claim C9 (as amended). Every tick of the reveal displays a prefix of the response that is
  strictly longer than the one before. Whenever the candidate cut point lands inside a word
  (the characters before and after it are not the space character) and the next space
  character lies fewer than 10 characters beyond the candidate cut point, the cut is extended
  to that space, so the displayed prefix ends where a space follows; otherwise the cut is made
  as planned. Revealing \<^verbatim>\<open>hello world testing\<close> displays \<^verbatim>\<open>hello\<close>, \<^verbatim>\<open>hello \<close>,
  \<^verbatim>\<open>hello world\<close>, \<^verbatim>\<open>hello world \<close> and then the last word, which no space follows,
  one character at a time.
\<close>

theorem reveal_extends_to_space:
  assumes "messageId p = mid" and "currentIndex p < length (fullText p)"
  shows "\<exists>p'. animateText mid (Some p) = (Some p', None)
      \<and> fullText p' = fullText p
      \<and> displayedText p' = take (currentIndex p') (fullText p)
      \<and> prefix (displayedText p') (fullText p)
      \<and> currentIndex p < currentIndex p' \<and> currentIndex p' \<le> length (fullText p)
      \<and> (\<forall>j. cut_inside_word (fullText p) (nextIndex (fullText p) (currentIndex p))
             \<and> next_space_at (fullText p) (nextIndex (fullText p) (currentIndex p)) j
             \<and> j - nextIndex (fullText p) (currentIndex p) < 10
             \<longrightarrow> currentIndex p' = j \<and> charAt (fullText p) (currentIndex p') = Some CHR '' '')
      \<and> (\<not> (cut_inside_word (fullText p) (nextIndex (fullText p) (currentIndex p))
              \<and> (\<exists>j. next_space_at (fullText p) (nextIndex (fullText p) (currentIndex p)) j
                     \<and> j - nextIndex (fullText p) (currentIndex p) < 10))
           \<longrightarrow> currentIndex p' = nextIndex (fullText p) (currentIndex p))
      \<and> reveal_from ''hello world testing'' 0 =
          [''hello'', ''hello '', ''hello world'', ''hello world '', ''hello world t'',
           ''hello world te'', ''hello world tes'', ''hello world test'', ''hello world testi'',
           ''hello world testin'', ''hello world testing'']"
proof -
  let ?t = "fullText p" and ?i = "currentIndex p"
  let ?a = "adjustedIndex ?t ?i"
  let ?p' = "p\<lparr>displayedText := take ?a ?t, currentIndex := ?a\<rparr>"
  have step: "animateText mid (Some p) = (Some ?p', None)"
    using assms by (simp add: animateText_def)
  have pre: "prefix (take ?a ?t) ?t"
    by (rule take_is_prefix)
  have bounds: "?i < ?a" "?a \<le> length ?t"
    using assms(2) by (simp_all add: adjustedIndex_gt adjustedIndex_le)
  have ext: "?a = j \<and> charAt ?t ?a = Some CHR '' ''"
    if "cut_inside_word ?t (nextIndex ?t ?i)" "next_space_at ?t (nextIndex ?t ?i) j"
      "j - nextIndex ?t ?i < 10" for j
    using adjustedIndex_extended [OF assms(2) that] that(2)
    by (simp add: next_space_at_def charAt_def)
  have planned: "?a = nextIndex ?t ?i"
    if "\<not> (cut_inside_word ?t (nextIndex ?t ?i)
          \<and> (\<exists>j. next_space_at ?t (nextIndex ?t ?i) j \<and> j - nextIndex ?t ?i < 10))"
    using adjustedIndex_planned [OF assms(2) that] .
  have ex: "reveal_from ''hello world testing'' 0 =
          [''hello'', ''hello '', ''hello world'', ''hello world '', ''hello world t'',
           ''hello world te'', ''hello world tes'', ''hello world test'', ''hello world testi'',
           ''hello world testin'', ''hello world testing'']"
    by code_simp
  show ?thesis
  proof (intro exI [of _ ?p'] conjI allI impI)
    show "animateText mid (Some p) = (Some ?p', None)" by (rule step)
    show "prefix (displayedText ?p') ?t" using pre by simp
    show "?i < currentIndex ?p'" "currentIndex ?p' \<le> length ?t" using bounds by simp_all
    show "currentIndex ?p' = nextIndex ?t ?i"
      if "\<not> (cut_inside_word ?t (nextIndex ?t ?i)
          \<and> (\<exists>j. next_space_at ?t (nextIndex ?t ?i) j \<and> j - nextIndex ?t ?i < 10))"
      using planned [OF that] by simp
    show "currentIndex ?p' = j" "charAt ?t (currentIndex ?p') = Some CHR '' ''"
      if "cut_inside_word ?t (nextIndex ?t ?i) \<and> next_space_at ?t (nextIndex ?t ?i) j
          \<and> j - nextIndex ?t ?i < 10" for j
      using ext [of j] that by auto
  qed (simp_all add: ex)
qed

definition hello_state :: LiveTranscriptionState where
  "hello_state = \<lparr>fullText = ''hello world testing'', displayedText = [], currentIndex = 0,
     messageId = ''1''\<rparr>"

theorem reveal_extends_to_space_witness:
  "messageId hello_state = ''1'' \<and> currentIndex hello_state < length (fullText hello_state)
   \<and> cut_inside_word (fullText hello_state) (nextIndex (fullText hello_state) 0)
   \<and> next_space_at (fullText hello_state) (nextIndex (fullText hello_state) 0) 5
   \<and> (\<exists>p'. animateText ''1'' (Some hello_state) = (Some p', None) \<and> currentIndex p' = 5
          \<and> displayedText p' = ''hello'')"
proof -
  have h: "messageId hello_state = ''1''" "currentIndex hello_state < length (fullText hello_state)"
    by (simp_all add: hello_state_def)
  have n: "nextIndex (fullText hello_state) 0 = 1"
    by (simp add: hello_state_def nextIndex_def charsToAdd_def)
  have w: "cut_inside_word (fullText hello_state) 1"
    by (simp add: hello_state_def cut_inside_word_def)
  have s: "next_space_at (fullText hello_state) 1 5"
    by (simp add: next_space_at_indexOf hello_state_def indexOf_def)
  from reveal_extends_to_space [OF h] obtain p' where
    p': "animateText ''1'' (Some hello_state) = (Some p', None)"
      "displayedText p' = take (currentIndex p') (fullText hello_state)"
      "\<forall>j. cut_inside_word (fullText hello_state) (nextIndex (fullText hello_state) (currentIndex hello_state))
             \<and> next_space_at (fullText hello_state) (nextIndex (fullText hello_state) (currentIndex hello_state)) j
             \<and> j - nextIndex (fullText hello_state) (currentIndex hello_state) < 10
             \<longrightarrow> currentIndex p' = j \<and> charAt (fullText hello_state) (currentIndex p') = Some CHR '' ''"
    by blast
  have i0: "currentIndex hello_state = 0" by (simp add: hello_state_def)
  from p'(3) [rule_format, of 5] n w s i0 have "currentIndex p' = 5" by simp
  with p'(1,2) h n w s show ?thesis by (auto simp: hello_state_def)
qed

text \<open>
  The claim as stated speaks of the next whitespace. A newline is whitespace, but the source
  looks for the space character only: in \<^verbatim>\<open>Hi\<close>, newline, \<^verbatim>\<open>there\<close> the first cut
  lands inside \<^verbatim>\<open>Hi\<close>, one character before the newline, and is not extended.
\<close>

theorem reveal_whitespace_counterexample:
  "\<not> spec_reveal_claim (''Hi'' @ [newline] @ ''there'') 0"
proof
  assume "spec_reveal_claim (''Hi'' @ [newline] @ ''there'') 0"
  moreover have n: "nextIndex (''Hi'' @ [newline] @ ''there'') 0 = 1"
    by (simp add: nextIndex_def charsToAdd_def)
  moreover have "\<forall>k. (1::nat) \<le> k \<and> k < 2 \<longrightarrow> \<not> whitespace ((''Hi'' @ [newline] @ ''there'') ! k)"
  proof (intro allI impI)
    fix k :: nat assume "1 \<le> k \<and> k < 2"
    then have "k = 1" by simp
    then show "\<not> whitespace ((''Hi'' @ [newline] @ ''there'') ! k)"
      by (simp add: whitespace_def special_chars)
  qed
  ultimately have "adjustedIndex (''Hi'' @ [newline] @ ''there'') 0 = 2"
    unfolding spec_reveal_claim_def
    by (elim allE [of _ 2]) (simp add: whitespace_def special_chars)
  moreover have "adjustedIndex (''Hi'' @ [newline] @ ''there'') 0 = 1"
    by (simp add: adjustedIndex_def nextIndex_def charsToAdd_def charAt_def indexOf_def special_chars)
  ultimately show False by simp
qed

section \<open>LLMHelper.analyzeAudioFromBase64: the audio pipeline\<close>

text \<open>
  The pipeline runs against a file system and external processes. The file system is a map
  from paths to contents (directories are not modelled, so \<^verbatim>\<open>mkdir\<close> has nothing to do, and
  writing a file succeeds); \<open>commands\<close> records every command line handed to
  \<^verbatim>\<open>execAsync\<close>, oldest first. An asynchronous \<^verbatim>\<open>unlink\<close> whose promise is not awaited is
  modelled as taking effect at once.
\<close>

type_synonym path = string
type_synonym files = "path \<rightharpoonup> string"

datatype error =
    ExecError string
  | ENOENT path
  | WavConversionFailed
  | AudioFileNotFound path
  | SyntaxError
  | TypeError

datatype json = JNull | JString string | JObject "(string \<times> json) list" | JOther

record world =
  files :: files
  commands :: "string list"

text \<open>The object of lines 273-284, its \<^verbatim>\<open>options\<close> flattened.\<close>

record ollamaPayload =
  model :: string
  prompt :: string
  stream :: bool
  temperature :: rat
  num_predict :: nat
  num_ctx :: nat
  num_thread :: nat
  seed :: nat

text \<open>
  What the pipeline takes from its surroundings: \<open>run\<close> is the outcome of an external command
  on a file system (\<open>Inr\<close> its standard output, or \<open>Inl\<close> the message with which
  \<^verbatim>\<open>execAsync\<close> rejects, and the file system it leaves behind); \<open>cwd\<close> is \<^verbatim>\<open>process.cwd()\<close>;
  the three clock readings are those of lines 142, 287 and 306; the last three are
  \<^verbatim>\<open>Buffer.from(data, 'base64')\<close>, \<^verbatim>\<open>JSON.stringify\<close> and \<^verbatim>\<open>JSON.parse\<close> (\<open>None\<close> when it
  throws a syntax error).
\<close>

record env =
  run :: "string \<Rightarrow> files \<Rightarrow> (string + string) \<times> files"
  cwd :: path
  now_audio :: nat
  now_payload :: nat
  now_result :: nat
  decode_base64 :: "string \<Rightarrow> string"
  JSON_stringify :: "ollamaPayload \<Rightarrow> string"
  JSON_parse :: "string \<Rightarrow> json option"

text \<open>The returned object: \<open>result_text\<close> is its \<^verbatim>\<open>text\<close>, \<open>None\<close> for \<^verbatim>\<open>undefined\<close>.\<close>

record audioResult =
  result_text :: "json option"
  timestamp :: nat

definition existsSync :: "world \<Rightarrow> path \<Rightarrow> bool" where
  "existsSync w p = (files w p \<noteq> None)"

definition writeFile :: "path \<Rightarrow> string \<Rightarrow> world \<Rightarrow> world" where
  "writeFile p c w = w\<lparr>files := (files w)(p \<mapsto> c)\<rparr>"

definition readFile :: "world \<Rightarrow> path \<Rightarrow> error + string" where
  "readFile w p = (case files w p of None \<Rightarrow> Inl (ENOENT p) | Some c \<Rightarrow> Inr c)"

definition unlink :: "path \<Rightarrow> world \<Rightarrow> error + world" where
  "unlink p w =
     (if files w p = None then Inl (ENOENT p) else Inr (w\<lparr>files := (files w)(p := None)\<rparr>))"

text \<open>\<^verbatim>\<open>fs.promises.unlink(p).catch(() => {})\<close>: a failure is dropped.\<close>

definition unlink_quiet :: "path \<Rightarrow> world \<Rightarrow> world" where
  "unlink_quiet p w = (case unlink p w of Inl _ \<Rightarrow> w | Inr w' \<Rightarrow> w')"

definition execAsync :: "env \<Rightarrow> string \<Rightarrow> world \<Rightarrow> (error + string) \<times> world" where
  "execAsync e cmd w =
     (case run e cmd (files w) of
        (r, fs) \<Rightarrow> (map_sum ExecError id r, \<lparr>files = fs, commands = commands w @ [cmd]\<rparr>))"

text \<open>\<^verbatim>\<open>path.join(a, b)\<close> on POSIX, for a normalised absolute \<open>a\<close> and a plain name \<open>b\<close>.\<close>

definition path_join :: "path \<Rightarrow> string \<Rightarrow> path" where
  "path_join a b = (if a = ''/'' then a @ b else a @ ''/'' @ b)"

definition quoted :: "string \<Rightarrow> string" where
  "quoted s = dquote # s @ [dquote]"

definition systemPrompt :: string where
  "systemPrompt = ''You are Wingman AI, a helpful, proactive assistant for any kind of problem or situation (not just coding). For any user input, analyze the situation, provide a clear problem statement, relevant context, and suggest several possible responses or actions the user could take next. Always explain your reasoning. Present your suggestions as a list of options or next steps.''"

text \<open>Lines 136-142, 160, 196 and 245: the paths.\<close>

definition tempDir :: "env \<Rightarrow> path" where
  "tempDir e = path_join (cwd e) ''temp''"

definition ext_of :: "string \<Rightarrow> string" where
  "ext_of mimeType = (if str_includes mimeType ''webm'' then ''webm'' else ''wav'')"

definition audioPath :: "env \<Rightarrow> string \<Rightarrow> path" where
  "audioPath e mimeType =
     path_join (tempDir e) (''audio_'' @ decimal (now_audio e) @ ''.'' @ ext_of mimeType)"

definition boostedWavPath :: "path \<Rightarrow> string \<Rightarrow> path" where
  "boostedWavPath audio ext = replace_first (''.'' @ ext) ''_boosted.wav'' audio"

definition simpleWavPath :: "path \<Rightarrow> string \<Rightarrow> path" where
  "simpleWavPath audio ext = replace_first (''.'' @ ext) ''.wav'' audio"

definition transcriptionFile :: "path \<Rightarrow> string \<Rightarrow> path" where
  "transcriptionFile audio ext = replace_first (''.'' @ ext) ''.txt'' audio"

definition payloadPath :: "env \<Rightarrow> path" where
  "payloadPath e = path_join (tempDir e) (''ollama_payload_'' @ decimal (now_payload e) @ ''.json'')"

text \<open>Lines 165, 181, 197, 222 and 291: the command lines.\<close>

definition convertCmd :: "path \<Rightarrow> path \<Rightarrow> string" where
  "convertCmd audio boosted =
     ''ffmpeg -i '' @ quoted audio @ '' -af '' @ quoted ''volume=3.0,highpass=f=200,lowpass=f=3000''
       @ '' -ar 16000 -ac 1 -c:a pcm_s16le '' @ quoted boosted @ '' -y''"

definition boostCmd :: "path \<Rightarrow> path \<Rightarrow> string" where
  "boostCmd audio boosted =
     ''ffmpeg -i '' @ quoted audio @ '' -af '' @ quoted ''volume=3.0'' @ '' '' @ quoted boosted @ '' -y''"

definition simpleCmd :: "path \<Rightarrow> path \<Rightarrow> string" where
  "simpleCmd audio simple =
     ''ffmpeg -i '' @ quoted audio @ '' -ar 16000 -ac 1 '' @ quoted simple @ '' -y''"

definition whisperCommand :: "path \<Rightarrow> string" where
  "whisperCommand processPath =
     ''./whisper.cpp/build/bin/whisper-cli -m ./whisper.cpp/models/ggml-tiny.en.bin -f ''
       @ quoted processPath @ '' -t 8 --no-timestamps -l en''"

definition ollamaCommand :: "path \<Rightarrow> string" where
  "ollamaCommand payload = ''curl -s http://localhost:11434/api/generate -d @'' @ quoted payload"

text \<open>
  Lines 162-191, the body of the outer \<^verbatim>\<open>try\<close>: the path to process, or the exception that
  leaves the block.
\<close>

definition boost :: "env \<Rightarrow> path \<Rightarrow> string \<Rightarrow> world \<Rightarrow> (error + path) \<times> world" where
  "boost e audio ext w =
     (if ext \<noteq> ''wav''
      then (case execAsync e (convertCmd audio (boostedWavPath audio ext)) w of
              (Inl err, w') \<Rightarrow> (Inl err, w')
            | (Inr out, w') \<Rightarrow>
                if existsSync w' (boostedWavPath audio ext)
                then (Inr (boostedWavPath audio ext), w')
                else (Inl WavConversionFailed, w'))
      else (case execAsync e (boostCmd audio (boostedWavPath audio ext)) w of
              (Inl err, w') \<Rightarrow> (Inl err, w')
            | (Inr out, w') \<Rightarrow>
                if existsSync w' (boostedWavPath audio ext)
                then (Inr (boostedWavPath audio ext), w')
                else (Inr audio, w')))"

text \<open>Lines 192-209, the handler of the outer \<^verbatim>\<open>try\<close>; \<^verbatim>\<open>processPath\<close> is still the saved
  audio when it runs.\<close>

definition simple_conversion :: "env \<Rightarrow> path \<Rightarrow> string \<Rightarrow> world \<Rightarrow> path \<times> world" where
  "simple_conversion e audio ext w =
     (case execAsync e (simpleCmd audio (simpleWavPath audio ext)) w of
        (Inl e2, w') \<Rightarrow> (audio, w')
      | (Inr out, w') \<Rightarrow>
          if existsSync w' (simpleWavPath audio ext) then (simpleWavPath audio ext, w')
          else (audio, w'))"

text \<open>Lines 157-209: the conversion never throws.\<close>

definition convert :: "env \<Rightarrow> path \<Rightarrow> string \<Rightarrow> world \<Rightarrow> path \<times> world" where
  "convert e audio ext w =
     (case boost e audio ext w of
        (Inr processPath, w') \<Rightarrow> (processPath, w')
      | (Inl err, w') \<Rightarrow> simple_conversion e audio ext w')"

text \<open>Line 237: the lines of the standard output that count as transcription.\<close>

definition transcript_line :: "string \<Rightarrow> bool" where
  "transcript_line line =
     (line \<noteq> [] \<and> \<not> startsWith line ''['' \<and> \<not> str_includes line ''whisper_''
      \<and> \<not> str_includes line ''main:'')"

text \<open>Lines 229-242.\<close>

definition parse_stdout :: "string \<Rightarrow> string" where
  "parse_stdout stdout =
     (if stdout \<noteq> []
      then trim (foldl (\<lambda>transcription line.
                   if transcript_line line then transcription @ line @ '' '' else transcription)
                 [] (str_split newline stdout))
      else [])"

text \<open>Lines 222-254: the transcription, or the rejection of the engine's run.\<close>

definition transcribe :: "env \<Rightarrow> path \<Rightarrow> string \<Rightarrow> path \<Rightarrow> world \<Rightarrow> (error + string) \<times> world" where
  "transcribe e audio ext processPath w =
     (case execAsync e (whisperCommand processPath) w of
        (Inl err, w') \<Rightarrow> (Inl err, w')
      | (Inr stdout, w') \<Rightarrow>
          (case readFile w' (transcriptionFile audio ext) of
             Inl _ \<Rightarrow> (Inr (parse_stdout stdout), w')
           | Inr fileContent \<Rightarrow>
               (Inr (if fileContent \<noteq> [] then trim fileContent else parse_stdout stdout),
                unlink_quiet (transcriptionFile audio ext) w')))"

text \<open>Lines 263-284.\<close>

definition ollamaPrompt :: "string \<Rightarrow> string" where
  "ollamaPrompt transcription =
     systemPrompt @ [newline, newline] @ ''Audio transcription: ''
       @ quoted (escapedTranscription transcription)
       @ [newline, newline] @ '' Provide a suggestion to the users question.''"

definition payload_of :: "string \<Rightarrow> ollamaPayload" where
  "payload_of transcription =
     \<lparr>model = ''qwen2.5:0.5b'', prompt = ollamaPrompt transcription, stream = False,
      temperature = 3 / 10, num_predict = 100, num_ctx = 512, num_thread = 8, seed = 42\<rparr>"

text \<open>\<^verbatim>\<open>ollamaResponse.response\<close>: reading a property of \<^verbatim>\<open>null\<close> throws, a value without the
  property gives \<^verbatim>\<open>undefined\<close>.\<close>

definition response_of :: "json \<Rightarrow> error + json option" where
  "response_of j =
     (case j of JNull \<Rightarrow> Inl TypeError
      | JObject kvs \<Rightarrow> Inr (map_of kvs ''response'')
      | _ \<Rightarrow> Inr None)"

text \<open>Lines 263-307: the inference request, the clean-up and the result.\<close>

definition infer :: "env \<Rightarrow> path \<Rightarrow> string \<Rightarrow> world \<Rightarrow> (error + audioResult) \<times> world" where
  "infer e audio transcription w =
     (case execAsync e (ollamaCommand (payloadPath e))
             (writeFile (payloadPath e) (JSON_stringify e (payload_of transcription)) w) of
        (Inl err, w') \<Rightarrow> (Inl err, w')
      | (Inr ollamaOutput, w') \<Rightarrow>
          (case JSON_parse e ollamaOutput of
             None \<Rightarrow> (Inl SyntaxError, w')
           | Some ollamaResponse \<Rightarrow>
               (case response_of ollamaResponse of
                  Inl err \<Rightarrow> (Inl err, unlink_quiet audio (unlink_quiet (payloadPath e) w'))
                | Inr t \<Rightarrow>
                    (Inr \<lparr>result_text = t, timestamp = now_result e\<rparr>,
                     unlink_quiet audio (unlink_quiet (payloadPath e) w')))))"

text \<open>Lines 211-307: everything after the conversion.\<close>

definition after_conversion :: "env \<Rightarrow> path \<Rightarrow> string \<Rightarrow> path \<times> world \<Rightarrow> (error + audioResult) \<times> world" where
  "after_conversion e audio ext pw =
     (case pw of (processPath, w) \<Rightarrow>
        if \<not> existsSync w processPath then (Inl (AudioFileNotFound processPath), w)
        else (case transcribe e audio ext processPath w of
                (Inl err, w') \<Rightarrow> (Inl err, w')
              | (Inr transcription, w') \<Rightarrow> infer e audio transcription w'))"

text \<open>Lines 130-313. The handler of line 309 logs and rethrows, so an exception of any stage
  is the result of the call. The two \<^verbatim>\<open>stat\<close> calls (lines 149 and 172) read files that
  exist when they run and only feed the log.\<close>

definition analyzeAudioFromBase64 :: "env \<Rightarrow> string \<Rightarrow> string \<Rightarrow> world \<Rightarrow> (error + audioResult) \<times> world" where
  "analyzeAudioFromBase64 e data mimeType w =
     after_conversion e (audioPath e mimeType) (ext_of mimeType)
       (convert e (audioPath e mimeType) (ext_of mimeType)
          (writeFile (audioPath e mimeType) (decode_base64 e data) w))"

subsection \<open>Facts about the stages\<close>

lemma execAsync_commands: "commands (snd (execAsync e cmd w)) = commands w @ [cmd]"
  by (simp add: execAsync_def split: prod.splits)

lemma execAsync_fst: "fst (execAsync e cmd w) = map_sum ExecError id (fst (run e cmd (files w)))"
  by (simp add: execAsync_def split: prod.splits)

lemma execAsync_files: "files (snd (execAsync e cmd w)) = snd (run e cmd (files w))"
  by (simp add: execAsync_def split: prod.splits)

lemma writeFile_commands: "commands (writeFile p c w) = commands w"
  by (simp add: writeFile_def)

lemma unlink_quiet_commands: "commands (unlink_quiet p w) = commands w"
  by (simp add: unlink_quiet_def unlink_def)

lemma unlink_quiet_files: "files (unlink_quiet p w) = (files w)(p := None)"
  by (auto simp: unlink_quiet_def unlink_def)

lemma foldl_transcript:
  "foldl (\<lambda>t l. if P l then t @ l @ s else t) acc ls = acc @ concat (map (\<lambda>l. l @ s) (filter P ls))"
  by (induction ls arbitrary: acc) simp_all

lemma str_split_nonempty: "str_split c s \<noteq> []"
  by (induction s) (auto split: list.splits)

lemma trim_Nil: "trim [] = []"
  by (simp add: trim_def)

lemma parse_stdout_eq:
  "parse_stdout stdout =
     trim (concat (map (\<lambda>line. line @ '' '') (filter transcript_line (str_split newline stdout))))"
proof (cases "stdout = []")
  case True
  then show ?thesis by (simp add: parse_stdout_def transcript_line_def trim_Nil)
next
  case False
  then show ?thesis
    using foldl_transcript [of transcript_line "'' ''" "[]" "str_split newline stdout"]
    by (simp add: parse_stdout_def)
qed

lemma simple_conversion_commands:
  "commands (snd (simple_conversion e a ext w)) = commands w @ [simpleCmd a (simpleWavPath a ext)]"
  using execAsync_commands [of e "simpleCmd a (simpleWavPath a ext)" w]
  by (auto simp: simple_conversion_def split: prod.splits sum.splits)

lemma transcribe_commands:
  "commands (snd (transcribe e a ext p w)) = commands w @ [whisperCommand p]"
  using execAsync_commands [of e "whisperCommand p" w]
  by (auto simp: transcribe_def unlink_quiet_commands split: prod.splits sum.splits)

lemma infer_commands:
  "commands (snd (infer e a t w)) = commands w @ [ollamaCommand (payloadPath e)]"
  using execAsync_commands [of e "ollamaCommand (payloadPath e)"
      "writeFile (payloadPath e) (JSON_stringify e (payload_of t)) w"]
  by (auto simp: infer_def unlink_quiet_commands writeFile_commands
      split: prod.splits sum.splits option.splits)

text \<open>The invocation of a converter failed: it was rejected, or it left no output file.\<close>

definition conversion_failed :: "(error + string) \<times> world \<Rightarrow> path \<Rightarrow> bool" where
  "conversion_failed r out = (isl (fst r) \<or> \<not> existsSync (snd r) out)"

text \<open>No external command removes the file \<open>p\<close>.\<close>

definition keeps_file :: "env \<Rightarrow> path \<Rightarrow> bool" where
  "keeps_file e p = (\<forall>cmd fs. fs p \<noteq> None \<longrightarrow> snd (run e cmd fs) p \<noteq> None)"

lemma boost_failed:
  assumes "ext \<noteq> ''wav''"
    and "conversion_failed (execAsync e (convertCmd a (boostedWavPath a ext)) w) (boostedWavPath a ext)"
  shows "\<exists>err. boost e a ext w = (Inl err, snd (execAsync e (convertCmd a (boostedWavPath a ext)) w))"
  using assms by (auto simp: boost_def conversion_failed_def split: prod.splits sum.splits)

lemma convert_primary_failed:
  assumes "ext \<noteq> ''wav''"
    and "conversion_failed (execAsync e (convertCmd a (boostedWavPath a ext)) w) (boostedWavPath a ext)"
  shows "convert e a ext w =
     simple_conversion e a ext (snd (execAsync e (convertCmd a (boostedWavPath a ext)) w))"
  using boost_failed [OF assms] by (auto simp: convert_def)

lemma simple_conversion_failed:
  assumes "conversion_failed (execAsync e (simpleCmd a (simpleWavPath a ext)) w) (simpleWavPath a ext)"
  shows "simple_conversion e a ext w = (a, snd (execAsync e (simpleCmd a (simpleWavPath a ext)) w))"
  using assms by (auto simp: simple_conversion_def conversion_failed_def split: prod.splits sum.splits)

lemma keeps_file_execAsync:
  "keeps_file e p \<Longrightarrow> existsSync w p \<Longrightarrow> existsSync (snd (execAsync e cmd w)) p"
  by (simp add: keeps_file_def existsSync_def execAsync_files)

lemma execAsync_error: "fst (execAsync e cmd w) = Inl err \<Longrightarrow> \<exists>msg. err = ExecError msg"
  by (cases "fst (run e cmd (files w))") (auto simp: execAsync_fst)

lemma transcribe_error:
  "fst (transcribe e a ext p w) = Inl err \<Longrightarrow> \<exists>msg. err = ExecError msg"
  using execAsync_error [of e "whisperCommand p" w err]
  by (auto simp: transcribe_def split: prod.splits sum.splits)

lemma infer_error:
  "fst (infer e a t w) = Inl err \<Longrightarrow> (\<exists>msg. err = ExecError msg) \<or> err = SyntaxError \<or> err = TypeError"
  using execAsync_error [of e "ollamaCommand (payloadPath e)"
      "writeFile (payloadPath e) (JSON_stringify e (payload_of t)) w" err]
  by (auto simp: infer_def response_of_def split: prod.splits sum.splits option.splits json.splits)

lemma after_conversion_commands:
  assumes "existsSync w p"
  shows "(\<exists>rest. commands (snd (after_conversion e a ext (p, w))) = commands w @ whisperCommand p # rest)
     \<and> fst (after_conversion e a ext (p, w)) \<noteq> Inl (AudioFileNotFound q)"
proof (cases "transcribe e a ext p w")
  case (Pair r w')
  have c: "commands w' = commands w @ [whisperCommand p]"
    using transcribe_commands [of e a ext p w] Pair by simp
  show ?thesis
  proof (cases r)
    case (Inl err)
    then have "err \<noteq> AudioFileNotFound q"
      using Pair transcribe_error [of e a ext p w err] by auto
    with Inl Pair c assms show ?thesis
      by (simp add: after_conversion_def)
  next
    case (Inr t)
    have "fst (infer e a t w') \<noteq> Inl (AudioFileNotFound q)"
      using infer_error [of e a t w' "AudioFileNotFound q"] by auto
    with Inr Pair c assms infer_commands [of e a t w'] show ?thesis
      by (simp add: after_conversion_def)
  qed
qed


text \<open>
  Claim C5. For an input classified as not WAV (its MIME type names \<^verbatim>\<open>webm\<close>) whose filtered
  conversion fails (the invocation is rejected or leaves no output file), the next command run
  is the simplified conversion (resample to 16 kHz, one channel, no filters). If that fails as
  well, the file to process is the saved original, and, as long as the converters did not
  remove it, the pipeline does not stop with an error about the audio file: the transcription
  engine is run on the original file.
\<close>

theorem conversion_fallback:
  fixes e :: env and data mimeType :: string and w :: world
  defines "a \<equiv> audioPath e mimeType"
  defines "ext \<equiv> ext_of mimeType"
  defines "w1 \<equiv> writeFile a (decode_base64 e data) w"
  defines "r1 \<equiv> execAsync e (convertCmd a (boostedWavPath a ext)) w1"
  defines "r2 \<equiv> execAsync e (simpleCmd a (simpleWavPath a ext)) (snd r1)"
  assumes nonwav: "ext \<noteq> ''wav''"
    and primary: "conversion_failed r1 (boostedWavPath a ext)"
  shows "commands (snd (convert e a ext w1))
           = commands w @ [convertCmd a (boostedWavPath a ext), simpleCmd a (simpleWavPath a ext)]
     \<and> (conversion_failed r2 (simpleWavPath a ext) \<longrightarrow>
          convert e a ext w1 = (a, snd r2)
          \<and> analyzeAudioFromBase64 e data mimeType w = after_conversion e a ext (a, snd r2)
          \<and> (keeps_file e a \<longrightarrow>
                (\<forall>q. fst (analyzeAudioFromBase64 e data mimeType w) \<noteq> Inl (AudioFileNotFound q))
                \<and> (\<exists>rest. commands (snd (analyzeAudioFromBase64 e data mimeType w))
                      = commands w @ [convertCmd a (boostedWavPath a ext),
                                      simpleCmd a (simpleWavPath a ext), whisperCommand a] @ rest)))"
proof -
  have conv: "convert e a ext w1 = simple_conversion e a ext (snd r1)"
    using convert_primary_failed [OF nonwav] primary by (simp add: r1_def)
  have c1: "commands (snd r1) = commands w @ [convertCmd a (boostedWavPath a ext)]"
    by (simp add: r1_def execAsync_commands w1_def writeFile_commands)
  have first: "commands (snd (convert e a ext w1))
           = commands w @ [convertCmd a (boostedWavPath a ext), simpleCmd a (simpleWavPath a ext)]"
    by (simp add: conv simple_conversion_commands c1)
  have second: "convert e a ext w1 = (a, snd r2)
          \<and> analyzeAudioFromBase64 e data mimeType w = after_conversion e a ext (a, snd r2)
          \<and> (keeps_file e a \<longrightarrow>
                (\<forall>q. fst (analyzeAudioFromBase64 e data mimeType w) \<noteq> Inl (AudioFileNotFound q))
                \<and> (\<exists>rest. commands (snd (analyzeAudioFromBase64 e data mimeType w))
                      = commands w @ [convertCmd a (boostedWavPath a ext),
                                      simpleCmd a (simpleWavPath a ext), whisperCommand a] @ rest))"
    if simple: "conversion_failed r2 (simpleWavPath a ext)"
  proof -
    have conv2: "convert e a ext w1 = (a, snd r2)"
      using simple_conversion_failed [of e a ext "snd r1"] simple conv by (simp add: r2_def)
    have an: "analyzeAudioFromBase64 e data mimeType w = after_conversion e a ext (a, snd r2)"
      using conv2 by (simp add: analyzeAudioFromBase64_def a_def ext_def w1_def)
    have c2: "commands (snd r2) = commands w @ [convertCmd a (boostedWavPath a ext),
        simpleCmd a (simpleWavPath a ext)]"
      by (simp add: r2_def execAsync_commands c1)
    have kept: "(\<forall>q. fst (analyzeAudioFromBase64 e data mimeType w) \<noteq> Inl (AudioFileNotFound q))
                \<and> (\<exists>rest. commands (snd (analyzeAudioFromBase64 e data mimeType w))
                      = commands w @ [convertCmd a (boostedWavPath a ext),
                                      simpleCmd a (simpleWavPath a ext), whisperCommand a] @ rest)"
      if k: "keeps_file e a"
    proof -
      have "existsSync w1 a" by (simp add: w1_def existsSync_def writeFile_def)
      then have "existsSync (snd r1) a" unfolding r1_def by (rule keeps_file_execAsync [OF k])
      then have ex: "existsSync (snd r2) a" unfolding r2_def by (rule keeps_file_execAsync [OF k])
      from after_conversion_commands [OF ex, of e a ext] show ?thesis
        by (auto simp: an c2)
    qed
    from conv2 an kept show ?thesis by blast
  qed
  from first second show ?thesis by blast
qed


lemma digit_not_dot: "n < 10 \<Longrightarrow> ''0123456789'' ! n \<noteq> CHR ''.''"
  by (auto simp: less_Suc_eq numeral_eq_Suc nth_Cons')

lemma decimal_no_dot: "CHR ''.'' \<notin> set (decimal n)"
proof (induction n rule: decimal.induct)
  case (1 n)
  show ?case
  proof (cases "n < 10")
    case True
    then show ?thesis using digit_not_dot [of n] by (subst decimal.simps) auto
  next
    case False
    then show ?thesis
      using 1 digit_not_dot [of "n mod 10"] by (subst decimal.simps) auto
  qed
qed

lemma replace_first_at_first_dot:
  "CHR ''.'' \<notin> set xs \<Longrightarrow> replace_first (CHR ''.'' # pat) rep (xs @ CHR ''.'' # pat) = xs @ rep"
  by (induction xs) auto

lemma audioPath_stem:
  assumes "CHR ''.'' \<notin> set (cwd e)"
  shows "audioPath e mimeType = (path_join (tempDir e) (''audio_'' @ decimal (now_audio e))) @ ''.'' @ ext_of mimeType"
    and "CHR ''.'' \<notin> set (path_join (tempDir e) (''audio_'' @ decimal (now_audio e)))"
  using assms decimal_no_dot [of "now_audio e"]
  by (auto simp: audioPath_def path_join_def tempDir_def)

lemma sibling_paths:
  assumes "CHR ''.'' \<notin> set (cwd e)"
  shows "transcriptionFile (audioPath e mimeType) (ext_of mimeType)
           = path_join (tempDir e) (''audio_'' @ decimal (now_audio e)) @ ''.txt''"
    and "boostedWavPath (audioPath e mimeType) (ext_of mimeType)
           = path_join (tempDir e) (''audio_'' @ decimal (now_audio e)) @ ''_boosted.wav''"
    and "simpleWavPath (audioPath e mimeType) (ext_of mimeType)
           = path_join (tempDir e) (''audio_'' @ decimal (now_audio e)) @ ''.wav''"
  using audioPath_stem(1) [OF assms, of mimeType] audioPath_stem(2) [OF assms]
    replace_first_at_first_dot [of "path_join (tempDir e) (''audio_'' @ decimal (now_audio e))" "ext_of mimeType"]
  by (simp_all add: transcriptionFile_def boostedWavPath_def simpleWavPath_def)


subsection \<open>Two concrete runs\<close>

text \<open>
  A run in which every external command succeeds: the converter writes the boosted file, the
  transcription engine prints a timing line and the text and writes a text file beside the
  file it was given, and the inference server answers.
\<close>

definition demo_stdout :: string where
  "demo_stdout = ''[00:00.000] start'' @ [newline] @ ''hello there'' @ [newline]"

definition demo_run :: "string \<Rightarrow> files \<Rightarrow> (string + string) \<times> files" where
  "demo_run cmd fs =
     (if startsWith cmd ''ffmpeg'' then (Inr [], fs(''/app/temp/audio_5_boosted.wav'' \<mapsto> ''RIFF''))
      else if startsWith cmd ''./whisper.cpp''
      then (Inr demo_stdout, fs(''/app/temp/audio_5_boosted.txt'' \<mapsto> ''from the sidecar''))
      else (Inr ''{}'', fs))"

definition demo_env :: env where
  "demo_env = \<lparr>run = demo_run, cwd = ''/app'', now_audio = 5, now_payload = 6, now_result = 7,
     decode_base64 = id, JSON_stringify = prompt,
     JSON_parse = (\<lambda>s. Some (JObject [(''response'', JString ''Try asking again.'')]))\<rparr>"

text \<open>
  A run in which the converter cannot be started and the transcription engine prints log
  lines only and writes no file.
\<close>

definition silent_stdout :: string where
  "silent_stdout = ''whisper_init_from_file: loading model'' @ [newline] @ ''[BLANK_AUDIO]''
     @ [newline] @ ''main: processing'' @ [newline]"

definition silent_run :: "string \<Rightarrow> files \<Rightarrow> (string + string) \<times> files" where
  "silent_run cmd fs =
     (if startsWith cmd ''ffmpeg'' then (Inl ''ffmpeg: command not found'', fs)
      else if startsWith cmd ''./whisper.cpp''
      then (Inr silent_stdout, fs)
      else (Inr ''{}'', fs))"

definition silent_env :: env where
  "silent_env = \<lparr>run = silent_run, cwd = ''/app'', now_audio = 5, now_payload = 6, now_result = 7,
     decode_base64 = id, JSON_stringify = prompt,
     JSON_parse = (\<lambda>s. Some (JObject [(''response'', JString ''I did not catch that.'')]))\<rparr>"

definition empty_world :: world where
  "empty_world = \<lparr>files = Map.empty, commands = []\<rparr>"

lemma ext_webm: "ext_of ''audio/webm'' = ''webm''"
  by (simp add: ext_of_def)

lemma demo_paths:
  "audioPath demo_env ''audio/webm'' = ''/app/temp/audio_5.webm''"
  "payloadPath demo_env = ''/app/temp/ollama_payload_6.json''"
  "audioPath silent_env ''audio/webm'' = ''/app/temp/audio_5.webm''"
  "payloadPath silent_env = ''/app/temp/ollama_payload_6.json''"
  by (simp_all add: audioPath_def payloadPath_def tempDir_def path_join_def ext_webm decimal.simps
      demo_env_def silent_env_def)

lemma webm_paths:
  "boostedWavPath ''/app/temp/audio_5.webm'' ''webm'' = ''/app/temp/audio_5_boosted.wav''"
  "simpleWavPath ''/app/temp/audio_5.webm'' ''webm'' = ''/app/temp/audio_5.wav''"
  "transcriptionFile ''/app/temp/audio_5.webm'' ''webm'' = ''/app/temp/audio_5.txt''"
  by (simp_all add: boostedWavPath_def simpleWavPath_def transcriptionFile_def)

lemma ffmpeg_commands:
  "startsWith (convertCmd a b) ''ffmpeg''" "startsWith (simpleCmd a b) ''ffmpeg''"
  "startsWith (boostCmd a b) ''ffmpeg''"
  "\<not> startsWith (whisperCommand p) ''ffmpeg''" "startsWith (whisperCommand p) ''./whisper.cpp''"
  "\<not> startsWith (ollamaCommand q) ''ffmpeg''" "\<not> startsWith (ollamaCommand q) ''./whisper.cpp''"
  by (simp_all add: startsWith_def convertCmd_def simpleCmd_def boostCmd_def whisperCommand_def
      ollamaCommand_def)

lemma demo_convert:
  "convert demo_env ''/app/temp/audio_5.webm'' ''webm'' (writeFile ''/app/temp/audio_5.webm'' ''data'' empty_world)
     = (''/app/temp/audio_5_boosted.wav'',
        \<lparr>files = [''/app/temp/audio_5.webm'' \<mapsto> ''data'', ''/app/temp/audio_5_boosted.wav'' \<mapsto> ''RIFF''],
         commands = [convertCmd ''/app/temp/audio_5.webm'' ''/app/temp/audio_5_boosted.wav'']\<rparr>)"
  by (simp add: convert_def boost_def execAsync_def webm_paths demo_env_def demo_run_def
      ffmpeg_commands writeFile_def empty_world_def existsSync_def)

lemma demo_parse: "parse_stdout demo_stdout = ''hello there''"
  by (simp add: demo_stdout_def parse_stdout_def transcript_line_def startsWith_def trim_def
      whitespace_def special_chars)

lemma silent_keeps: "keeps_file silent_env p"
  by (simp add: keeps_file_def silent_env_def silent_run_def)

lemma silent_failed:
  "conversion_failed (execAsync silent_env (convertCmd a b) w) out"
  "conversion_failed (execAsync silent_env (simpleCmd a b) w) out"
  by (simp_all add: conversion_failed_def execAsync_fst silent_env_def silent_run_def ffmpeg_commands)

theorem conversion_fallback_witness:
  "ext_of ''audio/webm'' \<noteq> ''wav''
   \<and> keeps_file silent_env (audioPath silent_env ''audio/webm'')
   \<and> (\<exists>rest. commands (snd (analyzeAudioFromBase64 silent_env ''data'' ''audio/webm'' empty_world))
          = [convertCmd ''/app/temp/audio_5.webm'' ''/app/temp/audio_5_boosted.wav'',
             simpleCmd ''/app/temp/audio_5.webm'' ''/app/temp/audio_5.wav'',
             whisperCommand ''/app/temp/audio_5.webm''] @ rest)"
proof -
  have h: "ext_of ''audio/webm'' \<noteq> ''wav''" by (simp add: ext_webm)
  from conversion_fallback [OF h silent_failed(1), of "''data''" empty_world]
    silent_failed(2) silent_keeps
  have "\<exists>rest. commands (snd (analyzeAudioFromBase64 silent_env ''data'' ''audio/webm'' empty_world))
     = commands empty_world @
       [convertCmd (audioPath silent_env ''audio/webm'')
          (boostedWavPath (audioPath silent_env ''audio/webm'') (ext_of ''audio/webm'')),
        simpleCmd (audioPath silent_env ''audio/webm'')
          (simpleWavPath (audioPath silent_env ''audio/webm'') (ext_of ''audio/webm'')),
        whisperCommand (audioPath silent_env ''audio/webm'')] @ rest"
    by blast
  then show ?thesis
    using h silent_keeps by (simp add: demo_paths ext_webm webm_paths empty_world_def)
qed

text \<open>
  What the transcription stage returns when the engine has run successfully: the trimmed
  concatenation, each followed by a space, of the lines of its standard output that are not
  empty, do not begin with \<^verbatim>\<open>[\<close> and contain neither \<^verbatim>\<open>whisper_\<close> nor \<^verbatim>\<open>main:\<close>; unless the
  text file whose path line 245 derives from the path of the saved input audio can be read and
  is not empty: then its trimmed contents.
\<close>

lemma transcript_source:
  fixes e :: env and mimeType stdout :: string and processPath :: path and w :: world
  defines "a \<equiv> audioPath e mimeType"
  defines "ext \<equiv> ext_of mimeType"
  assumes ok: "fst (run e (whisperCommand processPath) (files w)) = Inr stdout"
  shows "fst (transcribe e a ext processPath w)
           = Inr (case snd (run e (whisperCommand processPath) (files w)) (transcriptionFile a ext) of
                    None \<Rightarrow> parse_stdout stdout
                  | Some fileContent \<Rightarrow>
                      if fileContent \<noteq> [] then trim fileContent else parse_stdout stdout)
     \<and> parse_stdout stdout
           = trim (concat (map (\<lambda>line. line @ '' '')
               (filter (\<lambda>line. line \<noteq> [] \<and> \<not> startsWith line ''[''
                    \<and> \<not> str_includes line ''whisper_'' \<and> \<not> str_includes line ''main:'')
                 (str_split newline stdout))))
     \<and> (CHR ''.'' \<notin> set (cwd e) \<longrightarrow>
           transcriptionFile a ext
             = path_join (tempDir e) (''audio_'' @ decimal (now_audio e)) @ ''.txt'')"
proof -
  have "fst (execAsync e (whisperCommand processPath) w) = Inr stdout"
    using ok by (simp add: execAsync_fst)
  then have 1: "fst (transcribe e a ext processPath w)
           = Inr (case snd (run e (whisperCommand processPath) (files w)) (transcriptionFile a ext) of
                    None \<Rightarrow> parse_stdout stdout
                  | Some fileContent \<Rightarrow>
                      if fileContent \<noteq> [] then trim fileContent else parse_stdout stdout)"
    using execAsync_files [of e "whisperCommand processPath" w]
    by (auto simp: transcribe_def readFile_def split: prod.splits sum.splits option.splits)
  have 2: "parse_stdout stdout
           = trim (concat (map (\<lambda>line. line @ '' '')
               (filter (\<lambda>line. line \<noteq> [] \<and> \<not> startsWith line ''[''
                    \<and> \<not> str_includes line ''whisper_'' \<and> \<not> str_includes line ''main:'')
                 (str_split newline stdout))))"
    using parse_stdout_eq [of stdout] by (simp add: transcript_line_def [abs_def])
  have 3: "transcriptionFile a ext
             = path_join (tempDir e) (''audio_'' @ decimal (now_audio e)) @ ''.txt''"
    if "CHR ''.'' \<notin> set (cwd e)"
    using sibling_paths(1) [OF that] by (simp add: a_def ext_def)
  from 1 2 3 show ?thesis by blast
qed

text \<open>The sibling text file of a path, in the words of the specification: the same base name
  with the extension \<^verbatim>\<open>txt\<close>.\<close>

definition spec_sibling_transcript :: "path \<Rightarrow> path" where
  "spec_sibling_transcript p = rev (dropWhile (\<lambda>c. c \<noteq> CHR ''.'') (rev p)) @ ''txt''"

lemma demo_transcribe:
  "transcribe demo_env ''/app/temp/audio_5.webm'' ''webm'' ''/app/temp/audio_5_boosted.wav''
      \<lparr>files = fs, commands = cs\<rparr>
     = (Inr (case fs ''/app/temp/audio_5.txt'' of
               None \<Rightarrow> ''hello there''
             | Some c \<Rightarrow> if c \<noteq> [] then trim c else ''hello there''),
        \<lparr>files = (fs(''/app/temp/audio_5_boosted.txt'' \<mapsto> ''from the sidecar''))
                   (''/app/temp/audio_5.txt'' := None),
         commands = cs @ [whisperCommand ''/app/temp/audio_5_boosted.wav'']\<rparr>)"
  by (auto simp: transcribe_def execAsync_def demo_env_def demo_run_def ffmpeg_commands demo_parse
      readFile_def webm_paths unlink_quiet_def unlink_def split: option.splits)

text \<open>
  Claim C7. The transcript is read from the standard output of the engine, and a non-empty
  text file beside the transcribed audio file, with its base name, is meant to be preferred.
  The source derives the path of that file from the saved input audio, not from the file it
  handed to the engine. After the simplified conversion, and with the unconverted file, the
  two have the same base name and the file read is the sibling of the transcribed file. After
  a successful filtered conversion the transcribed file is the boosted one: a non-empty text
  file beside it, with its base name, is not read, and the transcript comes from the standard
  output.
\<close>

theorem transcribed_file_sibling_not_read:
  "fst (convert demo_env (audioPath demo_env ''audio/webm'') (ext_of ''audio/webm'')
          (writeFile (audioPath demo_env ''audio/webm'') ''data'' empty_world))
     = ''/app/temp/audio_5_boosted.wav''
   \<and> spec_sibling_transcript ''/app/temp/audio_5_boosted.wav'' = ''/app/temp/audio_5_boosted.txt''
   \<and> fst (transcribe demo_env (audioPath demo_env ''audio/webm'') (ext_of ''audio/webm'')
            ''/app/temp/audio_5_boosted.wav''
            (snd (convert demo_env (audioPath demo_env ''audio/webm'') (ext_of ''audio/webm'')
               (writeFile (audioPath demo_env ''audio/webm'') ''data'' empty_world))))
     = Inr ''hello there''
   \<and> files (snd (transcribe demo_env (audioPath demo_env ''audio/webm'') (ext_of ''audio/webm'')
            ''/app/temp/audio_5_boosted.wav''
            (snd (convert demo_env (audioPath demo_env ''audio/webm'') (ext_of ''audio/webm'')
               (writeFile (audioPath demo_env ''audio/webm'') ''data'' empty_world)))))
       ''/app/temp/audio_5_boosted.txt'' = Some ''from the sidecar''
   \<and> transcriptionFile (audioPath demo_env ''audio/webm'') (ext_of ''audio/webm'')
       = spec_sibling_transcript
           (simpleWavPath (audioPath demo_env ''audio/webm'') (ext_of ''audio/webm''))
   \<and> transcriptionFile (audioPath demo_env ''audio/webm'') (ext_of ''audio/webm'')
       = spec_sibling_transcript (audioPath demo_env ''audio/webm'')
   \<and> transcriptionFile (audioPath demo_env ''audio/webm'') (ext_of ''audio/webm'')
       \<noteq> spec_sibling_transcript
           (boostedWavPath (audioPath demo_env ''audio/webm'') (ext_of ''audio/webm''))"
  by (simp add: demo_paths ext_webm webm_paths demo_convert demo_transcribe
      spec_sibling_transcript_def)

lemma demo_fields:
  "run demo_env = demo_run" "decode_base64 demo_env = id" "JSON_stringify demo_env = prompt"
  "JSON_parse demo_env = (\<lambda>s. Some (JObject [(''response'', JString ''Try asking again.'')]))"
  "now_result demo_env = 7"
  by (simp_all add: demo_env_def)

text \<open>
  Claim C8. On a successful run with a converted file, the saved input audio and the request
  payload are deleted, but the converted audio file is still there when the result is
  returned: no statement of the function removes it.
\<close>

theorem converted_file_left_behind:
  "fst (analyzeAudioFromBase64 demo_env ''data'' ''audio/webm'' empty_world)
     = Inr \<lparr>result_text = Some (JString ''Try asking again.''), timestamp = 7\<rparr>
   \<and> files (snd (analyzeAudioFromBase64 demo_env ''data'' ''audio/webm'' empty_world))
       ''/app/temp/audio_5_boosted.wav'' = Some ''RIFF''
   \<and> files (snd (analyzeAudioFromBase64 demo_env ''data'' ''audio/webm'' empty_world))
       ''/app/temp/audio_5.webm'' = None
   \<and> files (snd (analyzeAudioFromBase64 demo_env ''data'' ''audio/webm'' empty_world))
       ''/app/temp/ollama_payload_6.json'' = None"
proof -
  have "analyzeAudioFromBase64 demo_env ''data'' ''audio/webm'' empty_world
     = infer demo_env ''/app/temp/audio_5.webm'' ''hello there''
         \<lparr>files = [''/app/temp/audio_5.webm'' \<mapsto> ''data'', ''/app/temp/audio_5_boosted.wav'' \<mapsto> ''RIFF'',
                   ''/app/temp/audio_5_boosted.txt'' \<mapsto> ''from the sidecar''],
          commands = [convertCmd ''/app/temp/audio_5.webm'' ''/app/temp/audio_5_boosted.wav'',
                      whisperCommand ''/app/temp/audio_5_boosted.wav'']\<rparr>"
    by (simp add: analyzeAudioFromBase64_def demo_paths ext_webm after_conversion_def
        existsSync_def demo_fields demo_convert demo_transcribe)
  then show ?thesis
    by (simp add: infer_def execAsync_def writeFile_def unlink_quiet_files demo_paths
        response_of_def demo_fields demo_run_def ffmpeg_commands)
qed

lemma parse_stdout_no_transcript:
  assumes "\<forall>line \<in> set (str_split newline stdout).
      line = [] \<or> startsWith line ''['' \<or> str_includes line ''whisper_'' \<or> str_includes line ''main:''"
  shows "parse_stdout stdout = []"
proof -
  have "filter transcript_line (str_split newline stdout) = []"
    using assms by (auto simp: filter_empty_conv transcript_line_def)
  then show ?thesis by (simp add: parse_stdout_eq trim_Nil)
qed

lemma infer_response:
  assumes "fst (execAsync e (ollamaCommand (payloadPath e))
             (writeFile (payloadPath e) (JSON_stringify e (payload_of t)) w)) = Inr out"
    and "JSON_parse e out = Some (JObject resp)"
  shows "fst (infer e a t w) = Inr \<lparr>result_text = map_of resp ''response'', timestamp = now_result e\<rparr>"
  using assms by (auto simp: infer_def response_of_def split: prod.splits sum.splits)

text \<open>
  Claim C10. When the transcription engine exits successfully and every line of its standard
  output is empty, begins with \<^verbatim>\<open>[\<close> or contains \<^verbatim>\<open>whisper_\<close> or \<^verbatim>\<open>main:\<close>, and the
  transcript text file does not exist, the transcription stage returns the empty string and
  raises nothing. The call goes on to the inference stage: the inference command is the next
  and last command run, on a payload whose prompt embeds the empty transcription between two
  double quotes, and when the server's output parses as an object the call returns its
  \<^verbatim>\<open>response\<close> field.
\<close>

theorem empty_transcript_proceeds:
  fixes e :: env and data mimeType stdout :: string and w :: world
  defines "a \<equiv> audioPath e mimeType"
  defines "ext \<equiv> ext_of mimeType"
  defines "conv \<equiv> convert e a ext (writeFile a (decode_base64 e data) w)"
  defines "rw \<equiv> execAsync e (whisperCommand (fst conv)) (snd conv)"
  defines "rq \<equiv> execAsync e (ollamaCommand (payloadPath e))
                  (writeFile (payloadPath e) (JSON_stringify e (payload_of [])) (snd rw))"
  assumes present: "existsSync (snd conv) (fst conv)"
    and ok: "fst rw = Inr stdout"
    and logs: "\<forall>line \<in> set (str_split newline stdout).
      line = [] \<or> startsWith line ''['' \<or> str_includes line ''whisper_'' \<or> str_includes line ''main:''"
    and no_sidecar: "\<not> existsSync (snd rw) (transcriptionFile a ext)"
  shows "transcribe e a ext (fst conv) (snd conv) = (Inr [], snd rw)
     \<and> analyzeAudioFromBase64 e data mimeType w = infer e a [] (snd rw)
     \<and> commands (snd (analyzeAudioFromBase64 e data mimeType w))
           = commands (snd conv) @ [whisperCommand (fst conv), ollamaCommand (payloadPath e)]
     \<and> files (writeFile (payloadPath e) (JSON_stringify e (payload_of [])) (snd rw)) (payloadPath e)
           = Some (JSON_stringify e (payload_of []))
     \<and> prompt (payload_of [])
           = systemPrompt @ [newline, newline] @ ''Audio transcription: '' @ [dquote, dquote]
               @ [newline, newline] @ '' Provide a suggestion to the users question.''
     \<and> (\<forall>out resp. fst rq = Inr out \<and> JSON_parse e out = Some (JObject resp) \<longrightarrow>
           fst (analyzeAudioFromBase64 e data mimeType w)
             = Inr \<lparr>result_text = map_of resp ''response'', timestamp = now_result e\<rparr>)"
proof -
  have t: "transcribe e a ext (fst conv) (snd conv) = (Inr [], snd rw)"
    using ok no_sidecar parse_stdout_no_transcript [OF logs]
    by (auto simp: transcribe_def rw_def readFile_def existsSync_def split: prod.splits sum.splits option.splits)
  have an: "analyzeAudioFromBase64 e data mimeType w = infer e a [] (snd rw)"
  proof -
    have "analyzeAudioFromBase64 e data mimeType w = after_conversion e a ext conv"
      by (simp add: analyzeAudioFromBase64_def a_def ext_def conv_def)
    also have "\<dots> = infer e a [] (snd rw)"
    proof (cases conv)
      case (Pair p w2)
      with present t show ?thesis by (simp add: after_conversion_def)
    qed
    finally show ?thesis .
  qed
  have c: "commands (snd (analyzeAudioFromBase64 e data mimeType w))
           = commands (snd conv) @ [whisperCommand (fst conv), ollamaCommand (payloadPath e)]"
    by (simp add: an infer_commands rw_def execAsync_commands)
  have f: "files (writeFile (payloadPath e) (JSON_stringify e (payload_of [])) (snd rw)) (payloadPath e)
           = Some (JSON_stringify e (payload_of []))"
    by (simp add: writeFile_def)
  have p: "prompt (payload_of [])
           = systemPrompt @ [newline, newline] @ ''Audio transcription: '' @ [dquote, dquote]
               @ [newline, newline] @ '' Provide a suggestion to the users question.''"
    by (simp add: payload_of_def ollamaPrompt_def quoted_def escapedTranscription_Nil)
  have r: "fst (analyzeAudioFromBase64 e data mimeType w)
             = Inr \<lparr>result_text = map_of resp ''response'', timestamp = now_result e\<rparr>"
    if "fst rq = Inr out \<and> JSON_parse e out = Some (JObject resp)" for out resp
    using that infer_response [of e "[]" "snd rw" out resp a] by (simp add: an rq_def)
  from t an c f p r show ?thesis by blast
qed


lemma silent_fields:
  "run silent_env = silent_run" "decode_base64 silent_env = id" "JSON_stringify silent_env = prompt"
  "JSON_parse silent_env = (\<lambda>s. Some (JObject [(''response'', JString ''I did not catch that.'')]))"
  "now_result silent_env = 7"
  by (simp_all add: silent_env_def)

lemma silent_convert:
  "convert silent_env ''/app/temp/audio_5.webm'' ''webm'' (writeFile ''/app/temp/audio_5.webm'' ''data'' empty_world)
     = (''/app/temp/audio_5.webm'',
        \<lparr>files = [''/app/temp/audio_5.webm'' \<mapsto> ''data''],
         commands = [convertCmd ''/app/temp/audio_5.webm'' ''/app/temp/audio_5_boosted.wav'',
                     simpleCmd ''/app/temp/audio_5.webm'' ''/app/temp/audio_5.wav'']\<rparr>)"
  by (simp add: convert_def boost_def simple_conversion_def execAsync_def webm_paths silent_fields
      silent_run_def ffmpeg_commands writeFile_def empty_world_def existsSync_def)

lemma silent_lines:
  "\<forall>line \<in> set (str_split newline silent_stdout).
      line = [] \<or> startsWith line ''['' \<or> str_includes line ''whisper_'' \<or> str_includes line ''main:''"
  by (simp add: silent_stdout_def startsWith_def special_chars)

theorem empty_transcript_proceeds_witness:
  "existsSync (snd (convert silent_env (audioPath silent_env ''audio/webm'') (ext_of ''audio/webm'')
        (writeFile (audioPath silent_env ''audio/webm'') (decode_base64 silent_env ''data'') empty_world)))
     (fst (convert silent_env (audioPath silent_env ''audio/webm'') (ext_of ''audio/webm'')
        (writeFile (audioPath silent_env ''audio/webm'') (decode_base64 silent_env ''data'') empty_world)))
   \<and> fst (run silent_env (whisperCommand ''/app/temp/audio_5.webm'')
            [''/app/temp/audio_5.webm'' \<mapsto> ''data'']) = Inr silent_stdout
   \<and> parse_stdout silent_stdout = []
   \<and> fst (analyzeAudioFromBase64 silent_env ''data'' ''audio/webm'' empty_world)
       = Inr \<lparr>result_text = Some (JString ''I did not catch that.''), timestamp = 7\<rparr>"
proof -
  let ?a = "''/app/temp/audio_5.webm''"
  let ?w1 = "writeFile (audioPath silent_env ''audio/webm'') (decode_base64 silent_env ''data'') empty_world"
  let ?conv = "convert silent_env (audioPath silent_env ''audio/webm'') (ext_of ''audio/webm'') ?w1"
  let ?rw = "execAsync silent_env (whisperCommand (fst ?conv)) (snd ?conv)"
  let ?rq = "execAsync silent_env (ollamaCommand (payloadPath silent_env))
       (writeFile (payloadPath silent_env) (JSON_stringify silent_env (payload_of [])) (snd ?rw))"
  have ap: "audioPath silent_env ''audio/webm'' = ?a" by (simp add: demo_paths)
  have dd: "decode_base64 silent_env ''data'' = ''data''" by (simp add: silent_fields)
  have conv: "?conv = (?a, \<lparr>files = [?a \<mapsto> ''data''],
         commands = [convertCmd ?a ''/app/temp/audio_5_boosted.wav'',
                     simpleCmd ?a ''/app/temp/audio_5.wav'']\<rparr>)"
    unfolding ap ext_webm dd by (rule silent_convert)
  have present: "existsSync (snd ?conv) (fst ?conv)"
    by (simp only: conv fst_conv snd_conv) (simp add: existsSync_def)
  have rw: "?rw = (Inr silent_stdout, \<lparr>files = [?a \<mapsto> ''data''],
         commands = [convertCmd ?a ''/app/temp/audio_5_boosted.wav'',
                     simpleCmd ?a ''/app/temp/audio_5.wav'', whisperCommand ?a]\<rparr>)"
    by (simp only: conv fst_conv snd_conv)
       (simp add: execAsync_def silent_fields(1) silent_run_def ffmpeg_commands)
  have ok: "fst ?rw = Inr silent_stdout" by (simp only: rw fst_conv)
  have no_sidecar: "\<not> existsSync (snd ?rw)
      (transcriptionFile (audioPath silent_env ''audio/webm'') (ext_of ''audio/webm''))"
    by (simp only: rw snd_conv) (simp add: existsSync_def ap ext_webm webm_paths)
  have rq: "fst ?rq = Inr ''{}''"
    by (simp add: execAsync_fst silent_fields(1) silent_run_def ffmpeg_commands)
  have js: "JSON_parse silent_env ''{}'' = Some (JObject [(''response'', JString ''I did not catch that.'')])"
    by (simp add: silent_fields)
  from empty_transcript_proceeds [OF present ok silent_lines no_sidecar] rq js
  have "fst (analyzeAudioFromBase64 silent_env ''data'' ''audio/webm'' empty_world)
       = Inr \<lparr>result_text = map_of [(''response'', JString ''I did not catch that.'')] ''response'',
              timestamp = now_result silent_env\<rparr>"
    by blast
  moreover have "fst (run silent_env (whisperCommand ?a) [?a \<mapsto> ''data'']) = Inr silent_stdout"
    by (simp add: silent_fields silent_run_def ffmpeg_commands)
  moreover note present parse_stdout_no_transcript [OF silent_lines]
  ultimately show ?thesis by (simp add: silent_fields)
qed

section \<open>QueueCommands: the recording session\<close>

text \<open>
  The refs of the component that the recorder callbacks, the meter loop and the flush button
  share are one record. A \<^verbatim>\<open>MediaRecorder\<close> is known by its index in \<open>recorders\<close>, which holds
  the \<^verbatim>\<open>state\<close> attribute of every recorder created so far; \<open>dispatched\<close> lists the audio
  blobs handed to the analysis, oldest first, each as the chunks it was built from;
  \<open>stopEvents\<close> lists the recorders whose \<^verbatim>\<open>stop\<close> event is queued and not yet delivered.
  Numbers are reals: rounding and \<^verbatim>\<open>NaN\<close> are left out. The display state (volume bars, live
  transcription) is left out as well: nothing below reads it. The handlers run on one event
  thread, each to completion.
\<close>

type_synonym blob = "nat list"

datatype rec_state = Inactive | Recording | Paused

record session =
  sessionActive :: bool
  streamRef :: "nat option"
  mediaRecorderRef :: "nat option"
  recorders :: "rec_state list"
  chunks :: "blob list"
  dispatched :: "blob list list"
  stopEvents :: "nat list"
  stopInFlight :: bool
  isSpeaking :: bool
  silenceStart :: "real option"
  noiseFloor :: "real option"

definition SILENCE_DURATION_MS :: real where "SILENCE_DURATION_MS = 1500"
definition CALIBRATION_MS :: real where "CALIBRATION_MS = 800"
definition MIN_THRESHOLD_RMS :: real where "MIN_THRESHOLD_RMS = 0.002"
definition NOISE_MULTIPLIER :: real where "NOISE_MULTIPLIER = 2.0"

text \<open>\<^verbatim>\<open>rec.state\<close> of recorder \<open>i\<close>, \<open>None\<close> when there is no such recorder.\<close>

definition rstate :: "session \<Rightarrow> nat \<Rightarrow> rec_state option" where
  "rstate s i = (if i < length (recorders s) then Some (recorders s ! i) else None)"

text \<open>
  \<^verbatim>\<open>rec.stop()\<close> on a recorder that is not inactive: the recorder becomes inactive at once and
  its \<^verbatim>\<open>stop\<close> event is queued. Every call of \<^verbatim>\<open>stop()\<close> in the source is guarded by a test
  of \<^verbatim>\<open>rec.state\<close>, so none meets an inactive recorder, the one case in which it could throw.
\<close>

definition rec_stop :: "nat \<Rightarrow> session \<Rightarrow> session" where
  "rec_stop i s = s\<lparr>recorders := (recorders s)[i := Inactive], stopEvents := stopEvents s @ [i]\<rparr>"

text \<open>Lines 190-219: the chunks become one blob, which goes to the analysis; the buffer is
  emptied.\<close>

definition sendAudioForAnalysis :: "session \<Rightarrow> session" where
  "sendAudioForAnalysis s =
     (if chunks s = [] then s
      else s\<lparr>dispatched := dispatched s @ [chunks s], chunks := []\<rparr>)"

text \<open>Lines 277-279, \<^verbatim>\<open>ondataavailable\<close>.\<close>

definition ondataavailable :: "blob \<Rightarrow> session \<Rightarrow> session" where
  "ondataavailable data s = (if length data > 0 then s\<lparr>chunks := chunks s @ [data]\<rparr> else s)"

text \<open>Lines 281-286, \<^verbatim>\<open>onstart\<close>.\<close>

definition onstart :: "session \<Rightarrow> session" where
  "onstart s = s\<lparr>stopInFlight := False, isSpeaking := False, silenceStart := None\<rparr>"

text \<open>
  What the browser does with \<^verbatim>\<open>new MediaRecorder(stream, ...)\<close> followed by \<^verbatim>\<open>start(100)\<close>:
  both succeed, or the constructor throws, or \<^verbatim>\<open>start\<close> throws (as it does when the tracks
  of the stream have ended).
\<close>

datatype recorder_fault = NoFault | ConstructorThrows | StartThrows

text \<open>Lines 288-310, \<^verbatim>\<open>onstop\<close>. The awaited call settles within the same task, so no other
  handler runs in between.\<close>

definition onstop :: "recorder_fault \<Rightarrow> session \<Rightarrow> session" where
  "onstop fault s =
     (let s1 = (if length (chunks s) > 0 then sendAudioForAnalysis s else s)
      in if sessionActive s1 \<and> streamRef s1 \<noteq> None
         then (let s2 = s1\<lparr>chunks := []\<rparr>
               in case fault of
                    NoFault \<Rightarrow>
                      s2\<lparr>recorders := recorders s2 @ [Recording],
                         mediaRecorderRef := Some (length (recorders s2))\<rparr>
                  | ConstructorThrows \<Rightarrow> s2
                  | StartThrows \<Rightarrow> s2\<lparr>recorders := recorders s2 @ [Inactive]\<rparr>)
         else s1\<lparr>mediaRecorderRef := None\<rparr>)"

text \<open>The delivery of the oldest queued \<^verbatim>\<open>stop\<close> event; \<open>None\<close> when none is queued.\<close>

definition fire_stop :: "recorder_fault \<Rightarrow> session \<Rightarrow> session option" where
  "fire_stop fault s =
     (case stopEvents s of [] \<Rightarrow> None | i # rest \<Rightarrow> Some (onstop fault (s\<lparr>stopEvents := rest\<rparr>)))"

text \<open>Lines 403-415. The recorder is recording when \<^verbatim>\<open>stop()\<close> is reached, so the handler of
  line 411 has nothing to catch.\<close>

definition handleManualFlush :: "session \<Rightarrow> session" where
  "handleManualFlush s =
     (case mediaRecorderRef s of
        None \<Rightarrow> s
      | Some rec \<Rightarrow>
          if rstate s rec \<noteq> Some Recording then s
          else if stopInFlight s then s
          else rec_stop rec (s\<lparr>stopInFlight := True\<rparr>))"

text \<open>Lines 234-239: the noise floor after a tick with sample \<open>rms\<close> at time \<open>now\<close>.\<close>

definition calibrate :: "real \<Rightarrow> real \<Rightarrow> real \<Rightarrow> real option \<Rightarrow> real option" where
  "calibrate startTs rms now nf =
     (if now - startTs < CALIBRATION_MS
      then Some (case nf of None \<Rightarrow> rms | Some n \<Rightarrow> n * 0.9 + rms * 0.1)
      else nf)"

text \<open>Lines 241-242.\<close>

definition threshold :: "real option \<Rightarrow> real" where
  "threshold nf =
     (let noise = (case nf of None \<Rightarrow> 0.001 | Some n \<Rightarrow> n)
      in max MIN_THRESHOLD_RMS (noise * NOISE_MULTIPLIER))"

text \<open>Lines 255-262: the stop that the meter loop asks for.\<close>

definition request_stop :: "session \<Rightarrow> session" where
  "request_stop s =
     (if \<not> stopInFlight s
      then (case mediaRecorderRef s of
              None \<Rightarrow> s
            | Some rec \<Rightarrow>
                if rstate s rec = Some Recording then rec_stop rec (s\<lparr>stopInFlight := True\<rparr>)
                else s)
      else s)"

text \<open>Lines 229-268: one tick of the meter loop started at \<open>startTs\<close>, with the sample \<open>rms\<close>
  read at time \<open>now\<close>.\<close>

definition tick :: "real \<Rightarrow> real \<times> real \<Rightarrow> session \<Rightarrow> session" where
  "tick startTs sample s =
     (case sample of (rms, now) \<Rightarrow>
        let s1 = s\<lparr>noiseFloor := calibrate startTs rms now (noiseFloor s)\<rparr>
        in if rms > threshold (noiseFloor s1)
           then s1\<lparr>isSpeaking := True, silenceStart := None\<rparr>
           else if isSpeaking s1
                then (case silenceStart s1 of
                        None \<Rightarrow> s1\<lparr>silenceStart := Some now\<rparr>
                      | Some t0 \<Rightarrow>
                          if now - t0 \<ge> SILENCE_DURATION_MS
                          then (request_stop s1)\<lparr>silenceStart := None, isSpeaking := False\<rparr>
                          else s1)
                else s1)"

text \<open>A sequence of ticks, oldest first.\<close>

definition run_ticks :: "real \<Rightarrow> (real \<times> real) list \<Rightarrow> session \<Rightarrow> session" where
  "run_ticks startTs samples s = foldl (\<lambda>s sample. tick startTs sample s) s samples"

subsection \<open>Manual flush\<close>

lemma rstate_rec_stop:
  "rstate s rec = Some Recording \<Longrightarrow> rstate (rec_stop rec s) rec = Some Inactive"
  by (auto simp: rstate_def rec_stop_def split: if_splits)

lemma handleManualFlush_noop:
  "stopInFlight s \<or> (\<forall>rec. mediaRecorderRef s = Some rec \<longrightarrow> rstate s rec \<noteq> Some Recording)
     \<Longrightarrow> handleManualFlush s = s"
  by (auto simp: handleManualFlush_def split: option.splits)

lemma handleManualFlush_stops:
  assumes "mediaRecorderRef s = Some rec" "rstate s rec = Some Recording" "\<not> stopInFlight s"
  shows "handleManualFlush s = rec_stop rec (s\<lparr>stopInFlight := True\<rparr>)"
  using assms by (simp add: handleManualFlush_def)

lemma handleManualFlush_in_flight:
  "handleManualFlush s \<noteq> s \<Longrightarrow> stopInFlight (handleManualFlush s)"
  by (auto simp: handleManualFlush_def rec_stop_def split: option.splits if_splits)

lemma handleManualFlush_idem: "handleManualFlush (handleManualFlush s) = handleManualFlush s"
proof (cases "handleManualFlush s = s")
  case True
  then show ?thesis by simp
next
  case False
  then have "stopInFlight (handleManualFlush s)" by (rule handleManualFlush_in_flight)
  then show ?thesis by (simp add: handleManualFlush_noop)
qed

lemma stopEvents_onstop: "stopEvents (onstop fault s) = stopEvents s"
  by (cases fault) (simp_all add: onstop_def sendAudioForAnalysis_def Let_def)

text \<open>
  Claim C3. In every state in which a stop is in flight or the current recorder is missing or
  not recording, a manual flush changes nothing. A second flush right after a first changes
  nothing either. From a state with a recording recorder and no stop in flight, two flushes
  in a row stop the recorder once: it is inactive, exactly one stop event has been queued for
  it, and, when no other stop event was waiting, the stop handler runs once and then nothing
  is left to deliver.
\<close>

theorem manual_flush_once:
  "(stopInFlight s \<or> (\<forall>rec. mediaRecorderRef s = Some rec \<longrightarrow> rstate s rec \<noteq> Some Recording)
      \<longrightarrow> handleManualFlush s = s)
   \<and> handleManualFlush (handleManualFlush s) = handleManualFlush s
   \<and> (\<forall>rec. mediaRecorderRef s = Some rec \<and> rstate s rec = Some Recording \<and> \<not> stopInFlight s \<longrightarrow>
         stopInFlight (handleManualFlush s)
         \<and> rstate (handleManualFlush (handleManualFlush s)) rec = Some Inactive
         \<and> recorders (handleManualFlush (handleManualFlush s)) = (recorders s)[rec := Inactive]
         \<and> stopEvents (handleManualFlush (handleManualFlush s)) = stopEvents s @ [rec]
         \<and> (stopEvents s = [] \<longrightarrow>
               (\<exists>s'. fire_stop fault (handleManualFlush (handleManualFlush s)) = Some s'
                    \<and> fire_stop fault' s' = None)))"
proof (intro conjI allI impI)
  show "handleManualFlush s = s"
    if "stopInFlight s \<or> (\<forall>rec. mediaRecorderRef s = Some rec \<longrightarrow> rstate s rec \<noteq> Some Recording)"
    using that by (rule handleManualFlush_noop)
  show "handleManualFlush (handleManualFlush s) = handleManualFlush s"
    by (rule handleManualFlush_idem)
next
  fix rec
  assume a: "mediaRecorderRef s = Some rec \<and> rstate s rec = Some Recording \<and> \<not> stopInFlight s"
  then have f: "handleManualFlush s = rec_stop rec (s\<lparr>stopInFlight := True\<rparr>)"
    by (simp add: handleManualFlush_stops)
  have ff: "handleManualFlush (handleManualFlush s) = rec_stop rec (s\<lparr>stopInFlight := True\<rparr>)"
    using handleManualFlush_idem [of s] by (simp only: f)
  have st: "rstate (s\<lparr>stopInFlight := True\<rparr>) rec = Some Recording"
    using a by (auto simp: rstate_def split: if_splits)
  show "stopInFlight (handleManualFlush s)"
    by (simp add: f rec_stop_def)
  show "rstate (handleManualFlush (handleManualFlush s)) rec = Some Inactive"
    unfolding ff using st by (rule rstate_rec_stop)
  show "recorders (handleManualFlush (handleManualFlush s)) = (recorders s)[rec := Inactive]"
    unfolding ff by (simp add: rec_stop_def)
  show "stopEvents (handleManualFlush (handleManualFlush s)) = stopEvents s @ [rec]"
    unfolding ff by (simp add: rec_stop_def)
  show "\<exists>s'. fire_stop fault (handleManualFlush (handleManualFlush s)) = Some s'
          \<and> fire_stop fault' s' = None"
    if "stopEvents s = []"
    unfolding ff using that
    by (simp add: rec_stop_def fire_stop_def stopEvents_onstop)
qed

definition flush_demo :: session where
  "flush_demo = \<lparr>sessionActive = True, streamRef = Some 0, mediaRecorderRef = Some 0,
     recorders = [Recording], chunks = [[1, 2], [3]], dispatched = [], stopEvents = [],
     stopInFlight = False, isSpeaking = True, silenceStart = None, noiseFloor = Some 0.001\<rparr>"

theorem manual_flush_once_witness:
  "mediaRecorderRef flush_demo = Some 0 \<and> rstate flush_demo 0 = Some Recording
   \<and> \<not> stopInFlight flush_demo \<and> stopEvents flush_demo = []
   \<and> stopEvents (handleManualFlush (handleManualFlush flush_demo)) = [0]
   \<and> recorders (handleManualFlush (handleManualFlush flush_demo)) = [Inactive]
   \<and> handleManualFlush (handleManualFlush (handleManualFlush flush_demo))
       = handleManualFlush (handleManualFlush flush_demo)"
proof -
  have h: "mediaRecorderRef flush_demo = Some 0" "rstate flush_demo 0 = Some Recording"
    "\<not> stopInFlight flush_demo" "stopEvents flush_demo = []"
    by (simp_all add: flush_demo_def rstate_def)
  have r: "recorders flush_demo = [Recording]" by (simp add: flush_demo_def)
  from manual_flush_once [of flush_demo NoFault NoFault] h
  have "stopEvents (handleManualFlush (handleManualFlush flush_demo)) = stopEvents flush_demo @ [0]"
    and "recorders (handleManualFlush (handleManualFlush flush_demo)) = (recorders flush_demo)[0 := Inactive]"
    by blast+
  moreover from manual_flush_once [of "handleManualFlush flush_demo" NoFault NoFault]
  have "handleManualFlush (handleManualFlush (handleManualFlush flush_demo))
       = handleManualFlush (handleManualFlush flush_demo)"
    by blast
  ultimately show ?thesis using h r by simp
qed

subsection \<open>The meter loop\<close>

lemma request_stop_fields:
  "isSpeaking (request_stop s) = isSpeaking s"
  "silenceStart (request_stop s) = silenceStart s"
  "noiseFloor (request_stop s) = noiseFloor s"
  by (auto simp: request_stop_def rec_stop_def split: option.splits)

lemma noiseFloor_tick:
  "noiseFloor (tick startTs (rms, now) s) = calibrate startTs rms now (noiseFloor s)"
  by (auto simp: tick_def Let_def request_stop_fields split: option.splits)

lemma run_ticks_Nil: "run_ticks startTs [] s = s"
  by (simp add: run_ticks_def)

lemma run_ticks_Cons: "run_ticks startTs (x # xs) s = run_ticks startTs xs (tick startTs x s)"
  by (simp add: run_ticks_def)

lemma run_ticks_append:
  "run_ticks startTs (xs @ ys) s = run_ticks startTs ys (run_ticks startTs xs s)"
  by (simp add: run_ticks_def)

lemma noiseFloor_frozen:
  "\<forall>x \<in> set xs. CALIBRATION_MS \<le> snd x - startTs \<Longrightarrow>
     noiseFloor (run_ticks startTs xs s) = noiseFloor s"
proof (induction xs arbitrary: s)
  case Nil
  then show ?case by (simp add: run_ticks_Nil)
next
  case (Cons x xs)
  obtain rms now where x: "x = (rms, now)" by (cases x)
  from Cons.prems have "noiseFloor (tick startTs x s) = noiseFloor s"
    by (simp add: x noiseFloor_tick calibrate_def)
  with Cons show ?case by (simp add: run_ticks_Cons)
qed

text \<open>
  Claim C4. A tick replaces the noise floor only while the time elapsed since the start of
  the meter loop is below 800 ms: the first such tick sets it to its sample, every later one
  to 0.9 times the old value plus 0.1 times the sample. A tick at 800 ms or later leaves it
  as it is; so, timestamps never decreasing, once one tick has come at 800 ms or later, no
  further tick of the sequence changes the noise floor.
\<close>

theorem noise_floor_window:
  "noiseFloor (tick startTs (rms, now) s)
     = (if now - startTs < 800
        then Some (case noiseFloor s of None \<Rightarrow> rms | Some old \<Rightarrow> 0.9 * old + 0.1 * rms)
        else noiseFloor s)
   \<and> (sorted (map snd (x # xs)) \<and> 800 \<le> snd x - startTs \<longrightarrow>
        noiseFloor (run_ticks startTs (pre @ x # xs) s) = noiseFloor (run_ticks startTs pre s))"
proof
  show "noiseFloor (tick startTs (rms, now) s)
     = (if now - startTs < 800
        then Some (case noiseFloor s of None \<Rightarrow> rms | Some old \<Rightarrow> 0.9 * old + 0.1 * rms)
        else noiseFloor s)"
    by (simp add: noiseFloor_tick calibrate_def CALIBRATION_MS_def split: option.splits)
  show "sorted (map snd (x # xs)) \<and> 800 \<le> snd x - startTs \<longrightarrow>
        noiseFloor (run_ticks startTs (pre @ x # xs) s) = noiseFloor (run_ticks startTs pre s)"
  proof
    assume a: "sorted (map snd (x # xs)) \<and> 800 \<le> snd x - startTs"
    then have "\<forall>y \<in> set (x # xs). CALIBRATION_MS \<le> snd y - startTs"
      by (auto simp: CALIBRATION_MS_def)
    then show "noiseFloor (run_ticks startTs (pre @ x # xs) s) = noiseFloor (run_ticks startTs pre s)"
      unfolding run_ticks_append by (rule noiseFloor_frozen)
  qed
qed

definition quiet_start :: session where
  "quiet_start = \<lparr>sessionActive = True, streamRef = Some 0, mediaRecorderRef = Some 0,
     recorders = [Recording], chunks = [], dispatched = [], stopEvents = [],
     stopInFlight = False, isSpeaking = False, silenceStart = None, noiseFloor = None\<rparr>"

theorem noise_floor_window_witness:
  "sorted (map snd [(0.5, 900), (0.7, 1000 :: real)]) \<and> (800 :: real) \<le> snd (0.5 :: real, 900 :: real) - 0
   \<and> noiseFloor (run_ticks 0 [(0.001, 16), (0.003, 32), (0.5, 900), (0.7, 1000)] quiet_start)
       = Some 0.0012"
proof -
  have h: "sorted (map snd [(0.5 :: real, 900 :: real), (0.7, 1000)]) \<and> (800 :: real) \<le> snd (0.5 :: real, 900 :: real) - 0"
    by simp
  have 1: "noiseFloor (tick 0 (0.001, 16) quiet_start) = Some 0.001"
    using noise_floor_window [of 0 "0.001" 16 quiet_start, THEN conjunct1] by (simp add: quiet_start_def)
  have 2: "noiseFloor (tick 0 (0.003, 32) (tick 0 (0.001, 16) quiet_start)) = Some 0.0012"
    using noise_floor_window [of 0 "0.003" 32 "tick 0 (0.001, 16) quiet_start", THEN conjunct1] 1 by simp
  from noise_floor_window [where startTs = 0 and x = "(0.5, 900)" and xs = "[(0.7, 1000)]"
      and pre = "[(0.001, 16), (0.003, 32)]" and s = quiet_start] h
  have "noiseFloor (run_ticks 0 ([(0.001, 16), (0.003, 32)] @ [(0.5, 900), (0.7, 1000)]) quiet_start)
      = noiseFloor (run_ticks 0 [(0.001, 16), (0.003, 32)] quiet_start)"
    by blast
  then show ?thesis using h 2 by (simp add: run_ticks_Cons run_ticks_Nil)
qed

text \<open>
  Vocabulary for the claim: a tick is above the threshold when its sample exceeds the
  threshold computed in that tick, from the noise floor as that tick leaves it; a run of ticks
  is below the threshold when none of them is above it.
\<close>

definition above :: "real \<Rightarrow> real \<times> real \<Rightarrow> session \<Rightarrow> bool" where
  "above startTs x s = (fst x > threshold (calibrate startTs (fst x) (snd x) (noiseFloor s)))"

fun all_below :: "real \<Rightarrow> (real \<times> real) list \<Rightarrow> session \<Rightarrow> bool" where
  "all_below startTs [] s = True"
| "all_below startTs (x # xs) s = (\<not> above startTs x s \<and> all_below startTs xs (tick startTs x s))"

lemma tick_above:
  "above startTs x s \<Longrightarrow> isSpeaking (tick startTs x s) \<and> silenceStart (tick startTs x s) = None"
  by (cases x) (simp add: above_def tick_def Let_def)

lemma tick_below_arm:
  "\<not> above startTs x s \<Longrightarrow> isSpeaking s \<Longrightarrow> silenceStart s = None \<Longrightarrow>
     isSpeaking (tick startTs x s) \<and> silenceStart (tick startTs x s) = Some (snd x)"
  by (cases x) (simp add: above_def tick_def Let_def)

lemma tick_below_wait:
  "\<not> above startTs x s \<Longrightarrow> isSpeaking s \<Longrightarrow> silenceStart s = Some t0 \<Longrightarrow>
     snd x - t0 < SILENCE_DURATION_MS \<Longrightarrow>
     isSpeaking (tick startTs x s) \<and> silenceStart (tick startTs x s) = Some t0"
  by (cases x) (simp add: above_def tick_def Let_def)

lemma request_stop_effect:
  "request_stop s =
     (case mediaRecorderRef s of
        Some rec \<Rightarrow> if \<not> stopInFlight s \<and> rstate s rec = Some Recording
                    then rec_stop rec (s\<lparr>stopInFlight := True\<rparr>) else s
      | None \<Rightarrow> s)"
  by (simp add: request_stop_def split: option.splits)

lemma tick_recorder_fields:
  "recorders (tick startTs x s)
     = (if isSpeaking s \<and> \<not> isSpeaking (tick startTs x s) then recorders (request_stop s) else recorders s)"
  "stopEvents (tick startTs x s)
     = (if isSpeaking s \<and> \<not> isSpeaking (tick startTs x s) then stopEvents (request_stop s) else stopEvents s)"
  "stopInFlight (tick startTs x s)
     = (if isSpeaking s \<and> \<not> isSpeaking (tick startTs x s) then stopInFlight (request_stop s) else stopInFlight s)"
  by (cases x; auto simp: tick_def Let_def request_stop_def rec_stop_def rstate_def split: option.splits)+


definition speaking_demo :: session where
  "speaking_demo = \<lparr>sessionActive = True, streamRef = Some 0, mediaRecorderRef = Some 0,
     recorders = [Recording], chunks = [[1, 2], [3]], dispatched = [], stopEvents = [],
     stopInFlight = False, isSpeaking = True, silenceStart = None, noiseFloor = Some 0.001\<rparr>"

subsection \<open>The meter loop in the arithmetic of the number type\<close>

text \<open>
  The source computes with IEEE doubles: every literal stands for the double nearest to it and
  every subtraction, multiplication and addition rounds its result. The comparisons are exact.
  The definitions below are lines 229-268 again, with the literals and the three operations
  taken from a record, so that what is proved of them holds for the doubles of the source as
  for any other arithmetic; \<open>exact\<close> is the arithmetic of the reals, and with it the
  definitions are \<open>calibrate\<close>, \<open>threshold\<close> and \<open>tick\<close> above. \<^verbatim>\<open>NaN\<close> and the
  infinities are left out.
\<close>

record arith =
  flit :: "real \<Rightarrow> real"
  fsub :: "real \<Rightarrow> real \<Rightarrow> real"
  fmul :: "real \<Rightarrow> real \<Rightarrow> real"
  fadd :: "real \<Rightarrow> real \<Rightarrow> real"

definition exact :: arith where
  "exact = \<lparr>flit = id, fsub = (-), fmul = (*), fadd = (+)\<rparr>"

text \<open>Lines 234-239.\<close>

definition calibrate_fp :: "arith \<Rightarrow> real \<Rightarrow> real \<Rightarrow> real \<Rightarrow> real option \<Rightarrow> real option" where
  "calibrate_fp ar startTs rms now nf =
     (if fsub ar now startTs < flit ar 800
      then Some (case nf of
                   None \<Rightarrow> rms
                 | Some n \<Rightarrow> fadd ar (fmul ar n (flit ar 0.9)) (fmul ar rms (flit ar 0.1)))
      else nf)"

text \<open>Lines 241-242.\<close>

definition threshold_fp :: "arith \<Rightarrow> real option \<Rightarrow> real" where
  "threshold_fp ar nf =
     (let noise = (case nf of None \<Rightarrow> flit ar 0.001 | Some n \<Rightarrow> n)
      in max (flit ar 0.002) (fmul ar noise (flit ar 2.0)))"

text \<open>Lines 229-268.\<close>

definition tick_fp :: "arith \<Rightarrow> real \<Rightarrow> real \<times> real \<Rightarrow> session \<Rightarrow> session" where
  "tick_fp ar startTs sample s =
     (case sample of (rms, now) \<Rightarrow>
        let s1 = s\<lparr>noiseFloor := calibrate_fp ar startTs rms now (noiseFloor s)\<rparr>
        in if rms > threshold_fp ar (noiseFloor s1)
           then s1\<lparr>isSpeaking := True, silenceStart := None\<rparr>
           else if isSpeaking s1
                then (case silenceStart s1 of
                        None \<Rightarrow> s1\<lparr>silenceStart := Some now\<rparr>
                      | Some t0 \<Rightarrow>
                          if fsub ar now t0 \<ge> flit ar 1500
                          then (request_stop s1)\<lparr>silenceStart := None, isSpeaking := False\<rparr>
                          else s1)
                else s1)"

definition run_ticks_fp :: "arith \<Rightarrow> real \<Rightarrow> (real \<times> real) list \<Rightarrow> session \<Rightarrow> session" where
  "run_ticks_fp ar startTs samples s = foldl (\<lambda>s sample. tick_fp ar startTs sample s) s samples"

text \<open>A tick above the threshold, and a run of ticks below it, as before.\<close>

definition above_fp :: "arith \<Rightarrow> real \<Rightarrow> real \<times> real \<Rightarrow> session \<Rightarrow> bool" where
  "above_fp ar startTs x s
     = (fst x > threshold_fp ar (calibrate_fp ar startTs (fst x) (snd x) (noiseFloor s)))"

fun all_below_fp :: "arith \<Rightarrow> real \<Rightarrow> (real \<times> real) list \<Rightarrow> session \<Rightarrow> bool" where
  "all_below_fp ar startTs [] s = True"
| "all_below_fp ar startTs (x # xs) s
     = (\<not> above_fp ar startTs x s \<and> all_below_fp ar startTs xs (tick_fp ar startTs x s))"

lemma exact_fields:
  "flit exact = id" "fsub exact = (-)" "fmul exact = (*)" "fadd exact = (+)"
  by (simp_all add: exact_def)

lemma calibrate_fp_exact: "calibrate_fp exact = calibrate"
  by (intro ext)
     (simp add: calibrate_fp_def calibrate_def exact_fields CALIBRATION_MS_def split: option.splits)

lemma threshold_fp_exact: "threshold_fp exact = threshold"
  by (intro ext)
     (simp add: threshold_fp_def threshold_def exact_fields MIN_THRESHOLD_RMS_def NOISE_MULTIPLIER_def
        split: option.splits)

lemma tick_fp_exact: "tick_fp exact = tick"
  by (intro ext)
     (simp add: tick_fp_def tick_def calibrate_fp_exact threshold_fp_exact exact_fields
        SILENCE_DURATION_MS_def Let_def split: prod.splits option.splits)

lemma run_ticks_fp_exact: "run_ticks_fp exact = run_ticks"
  by (intro ext) (simp add: run_ticks_fp_def run_ticks_def tick_fp_exact)

lemma above_fp_exact: "above_fp exact = above"
  by (intro ext) (simp add: above_fp_def above_def calibrate_fp_exact threshold_fp_exact)

lemma all_below_fp_exact: "all_below_fp exact startTs xs s = all_below startTs xs s"
  by (induction xs arbitrary: s) (simp_all add: above_fp_exact tick_fp_exact)

lemma run_ticks_fp_Nil: "run_ticks_fp ar startTs [] s = s"
  by (simp add: run_ticks_fp_def)

lemma run_ticks_fp_Cons:
  "run_ticks_fp ar startTs (x # xs) s = run_ticks_fp ar startTs xs (tick_fp ar startTs x s)"
  by (simp add: run_ticks_fp_def)

lemma run_ticks_fp_append:
  "run_ticks_fp ar startTs (xs @ ys) s = run_ticks_fp ar startTs ys (run_ticks_fp ar startTs xs s)"
  by (simp add: run_ticks_fp_def)

lemma all_below_fp_append:
  "all_below_fp ar startTs (xs @ ys) s
     \<longleftrightarrow> all_below_fp ar startTs xs s \<and> all_below_fp ar startTs ys (run_ticks_fp ar startTs xs s)"
  by (induction xs arbitrary: s) (simp_all add: run_ticks_fp_Nil run_ticks_fp_Cons)

lemma tick_fp_above:
  "above_fp ar startTs x s \<Longrightarrow>
     isSpeaking (tick_fp ar startTs x s) \<and> silenceStart (tick_fp ar startTs x s) = None"
  by (cases x) (simp add: above_fp_def tick_fp_def Let_def)

lemma tick_fp_below_silent:
  "\<not> above_fp ar startTs x s \<Longrightarrow> \<not> isSpeaking s \<Longrightarrow> \<not> isSpeaking (tick_fp ar startTs x s)"
  by (cases x) (simp add: above_fp_def tick_fp_def Let_def)

lemma tick_fp_below_arm:
  "\<not> above_fp ar startTs x s \<Longrightarrow> isSpeaking s \<Longrightarrow> silenceStart s = None \<Longrightarrow>
     isSpeaking (tick_fp ar startTs x s) \<and> silenceStart (tick_fp ar startTs x s) = Some (snd x)"
  by (cases x) (simp add: above_fp_def tick_fp_def Let_def)

lemma tick_fp_below_wait:
  "\<not> above_fp ar startTs x s \<Longrightarrow> isSpeaking s \<Longrightarrow> silenceStart s = Some t0 \<Longrightarrow>
     fsub ar (snd x) t0 < flit ar 1500 \<Longrightarrow>
     isSpeaking (tick_fp ar startTs x s) \<and> silenceStart (tick_fp ar startTs x s) = Some t0"
  by (cases x) (simp add: above_fp_def tick_fp_def Let_def)

lemma tick_fp_below_fire:
  "\<not> above_fp ar startTs x s \<Longrightarrow> isSpeaking s \<Longrightarrow> silenceStart s = Some t0 \<Longrightarrow>
     flit ar 1500 \<le> fsub ar (snd x) t0 \<Longrightarrow> \<not> isSpeaking (tick_fp ar startTs x s)"
  by (cases x) (simp add: above_fp_def tick_fp_def Let_def)

lemma tick_fp_transition_iff:
  "isSpeaking s \<and> \<not> isSpeaking (tick_fp ar startTs x s) \<longleftrightarrow>
     isSpeaking s \<and> \<not> above_fp ar startTs x s
     \<and> (\<exists>t0. silenceStart s = Some t0 \<and> flit ar 1500 \<le> fsub ar (snd x) t0)"
  by (cases x) (auto simp: above_fp_def tick_fp_def Let_def request_stop_fields split: option.splits)

lemma silent_stays_fp:
  "\<not> isSpeaking s \<Longrightarrow> all_below_fp ar startTs xs s \<Longrightarrow> \<not> isSpeaking (run_ticks_fp ar startTs xs s)"
proof (induction xs arbitrary: s)
  case Nil
  then show ?case by (simp add: run_ticks_fp_Nil)
next
  case (Cons x xs)
  then show ?case
    using tick_fp_below_silent [of ar startTs x s] by (simp add: run_ticks_fp_Cons)
qed

lemma armed_run_fp:
  assumes "isSpeaking s" "silenceStart s = Some t0" "all_below_fp ar startTs xs s"
  shows "(isSpeaking (run_ticks_fp ar startTs xs s)
           \<longleftrightarrow> (\<forall>m \<in> set xs. fsub ar (snd m) t0 < flit ar 1500))
     \<and> (isSpeaking (run_ticks_fp ar startTs xs s)
           \<longrightarrow> silenceStart (run_ticks_fp ar startTs xs s) = Some t0)"
  using assms
proof (induction xs arbitrary: s)
  case Nil
  then show ?case by (simp add: run_ticks_fp_Nil)
next
  case (Cons x xs)
  from Cons.prems(3) have below: "\<not> above_fp ar startTs x s"
    and rest: "all_below_fp ar startTs xs (tick_fp ar startTs x s)"
    by simp_all
  show ?case
  proof (cases "fsub ar (snd x) t0 < flit ar 1500")
    case True
    from tick_fp_below_wait [OF below Cons.prems(1,2) True]
    have "isSpeaking (tick_fp ar startTs x s)" "silenceStart (tick_fp ar startTs x s) = Some t0"
      by simp_all
    from Cons.IH [OF this rest] True show ?thesis
      by (simp add: run_ticks_fp_Cons)
  next
    case False
    then have "flit ar 1500 \<le> fsub ar (snd x) t0" by simp
    from tick_fp_below_fire [OF below Cons.prems(1,2) this]
    have "\<not> isSpeaking (tick_fp ar startTs x s)" .
    from silent_stays_fp [OF this rest] False show ?thesis
      by (simp add: run_ticks_fp_Cons)
  qed
qed

lemma run_transition_fp:
  assumes "isSpeaking s" "silenceStart s = None" "all_below_fp ar startTs (r # rs @ [y]) s"
  shows "isSpeaking (run_ticks_fp ar startTs (r # rs) s)
       \<and> \<not> isSpeaking (run_ticks_fp ar startTs (r # rs @ [y]) s)
     \<longleftrightarrow> flit ar 1500 \<le> fsub ar (snd y) (snd r)
       \<and> (\<forall>m \<in> set rs. fsub ar (snd m) (snd r) < flit ar 1500)"
proof -
  let ?s1 = "tick_fp ar startTs r s"
  let ?s2 = "run_ticks_fp ar startTs rs ?s1"
  from assms(3) have below: "\<not> above_fp ar startTs r s"
    and rest: "all_below_fp ar startTs (rs @ [y]) ?s1"
    by simp_all
  from rest have rs: "all_below_fp ar startTs rs ?s1" and x: "\<not> above_fp ar startTs y ?s2"
    by (simp_all add: all_below_fp_append)
  from tick_fp_below_arm [OF below assms(1,2)]
  have armed: "isSpeaking ?s1" "silenceStart ?s1 = Some (snd r)" by simp_all
  note run = armed_run_fp [OF armed rs]
  have "isSpeaking ?s2 \<and> \<not> isSpeaking (tick_fp ar startTs y ?s2)
     \<longleftrightarrow> isSpeaking ?s2 \<and> flit ar 1500 \<le> fsub ar (snd y) (snd r)"
    using tick_fp_transition_iff [of ?s2 ar startTs y] x run by auto
  with run show ?thesis
    by (auto simp: run_ticks_fp_Cons run_ticks_fp_append run_ticks_fp_Nil)
qed

lemma tick_fp_recorder_fields:
  "recorders (tick_fp ar startTs x s)
     = (if isSpeaking s \<and> \<not> isSpeaking (tick_fp ar startTs x s) then recorders (request_stop s)
        else recorders s)"
  "stopEvents (tick_fp ar startTs x s)
     = (if isSpeaking s \<and> \<not> isSpeaking (tick_fp ar startTs x s) then stopEvents (request_stop s)
        else stopEvents s)"
  "stopInFlight (tick_fp ar startTs x s)
     = (if isSpeaking s \<and> \<not> isSpeaking (tick_fp ar startTs x s) then stopInFlight (request_stop s)
        else stopInFlight s)"
  by (cases x; auto simp: tick_fp_def Let_def request_stop_def rec_stop_def rstate_def split: option.splits)+


text \<open>
  Claim C2 (as amended). In the arithmetic of the source, the threshold of a tick is the
  larger of 0.002 and the product of the noise floor and 2.0 (0.001 standing for a noise floor
  not yet set). A tick above the threshold makes the state Speaking and resets the silence
  timer to none. The first tick below the threshold after it arms the timer with its own
  timestamp. Along the run of ticks below the threshold that follows a tick above it, the
  state goes from Speaking to Silent at a tick if and only if the difference that the source
  computes between the timestamp of that tick and the timestamp of the first tick of the run
  is at least 1500, and was below 1500 at every tick in between. At the tick of the
  transition, and at no other tick, the stop of the recorder is requested: the current
  recorder is stopped when it is recording and no stop is in flight, and nothing is stopped
  otherwise. All this holds whatever the rounding of the literals and of the operations is.
\<close>

theorem vad_transition:
  "threshold_fp ar nf
     = max (flit ar 0.002) (fmul ar (case nf of None \<Rightarrow> flit ar 0.001 | Some n \<Rightarrow> n) (flit ar 2.0))
   \<and> (above_fp ar startTs x s \<longrightarrow>
        isSpeaking (tick_fp ar startTs x s) \<and> silenceStart (tick_fp ar startTs x s) = None)
   \<and> (isSpeaking s \<and> silenceStart s = None \<and> \<not> above_fp ar startTs x s \<longrightarrow>
        isSpeaking (tick_fp ar startTs x s) \<and> silenceStart (tick_fp ar startTs x s) = Some (snd x))
   \<and> (isSpeaking s \<and> silenceStart s = None \<and> all_below_fp ar startTs (r # rs @ [y]) s \<longrightarrow>
        (isSpeaking (run_ticks_fp ar startTs (r # rs) s)
           \<and> \<not> isSpeaking (run_ticks_fp ar startTs (r # rs @ [y]) s)
         \<longleftrightarrow> flit ar 1500 \<le> fsub ar (snd y) (snd r)
           \<and> (\<forall>m \<in> set rs. fsub ar (snd m) (snd r) < flit ar 1500)))
   \<and> (isSpeaking s \<and> \<not> isSpeaking (tick_fp ar startTs x s) \<longrightarrow>
        recorders (tick_fp ar startTs x s) = recorders (request_stop s)
        \<and> stopEvents (tick_fp ar startTs x s) = stopEvents (request_stop s)
        \<and> stopInFlight (tick_fp ar startTs x s) = stopInFlight (request_stop s)
        \<and> (\<forall>rec. mediaRecorderRef s = Some rec \<and> rstate s rec = Some Recording \<and> \<not> stopInFlight s \<longrightarrow>
              rstate (tick_fp ar startTs x s) rec = Some Inactive
              \<and> stopEvents (tick_fp ar startTs x s) = stopEvents s @ [rec]
              \<and> stopInFlight (tick_fp ar startTs x s))
        \<and> (stopInFlight s \<or> (\<forall>rec. mediaRecorderRef s = Some rec \<longrightarrow> rstate s rec \<noteq> Some Recording) \<longrightarrow>
              recorders (tick_fp ar startTs x s) = recorders s
              \<and> stopEvents (tick_fp ar startTs x s) = stopEvents s))
   \<and> (\<not> (isSpeaking s \<and> \<not> isSpeaking (tick_fp ar startTs x s)) \<longrightarrow>
        recorders (tick_fp ar startTs x s) = recorders s
        \<and> stopEvents (tick_fp ar startTs x s) = stopEvents s
        \<and> stopInFlight (tick_fp ar startTs x s) = stopInFlight s)"
proof (intro conjI impI)
  show "threshold_fp ar nf
     = max (flit ar 0.002) (fmul ar (case nf of None \<Rightarrow> flit ar 0.001 | Some n \<Rightarrow> n) (flit ar 2.0))"
    by (simp add: threshold_fp_def)
  show "isSpeaking (tick_fp ar startTs x s)" "silenceStart (tick_fp ar startTs x s) = None"
    if "above_fp ar startTs x s"
    using tick_fp_above [OF that] by simp_all
  show "isSpeaking (tick_fp ar startTs x s)" "silenceStart (tick_fp ar startTs x s) = Some (snd x)"
    if "isSpeaking s \<and> silenceStart s = None \<and> \<not> above_fp ar startTs x s"
    using that tick_fp_below_arm [of ar startTs x s] by simp_all
  show "isSpeaking (run_ticks_fp ar startTs (r # rs) s)
           \<and> \<not> isSpeaking (run_ticks_fp ar startTs (r # rs @ [y]) s)
         \<longleftrightarrow> flit ar 1500 \<le> fsub ar (snd y) (snd r)
           \<and> (\<forall>m \<in> set rs. fsub ar (snd m) (snd r) < flit ar 1500)"
    if "isSpeaking s \<and> silenceStart s = None \<and> all_below_fp ar startTs (r # rs @ [y]) s"
    using that run_transition_fp [of s ar startTs r rs y] by simp
next
  assume t: "isSpeaking s \<and> \<not> isSpeaking (tick_fp ar startTs x s)"
  then show r1: "recorders (tick_fp ar startTs x s) = recorders (request_stop s)"
    and r2: "stopEvents (tick_fp ar startTs x s) = stopEvents (request_stop s)"
    and r3: "stopInFlight (tick_fp ar startTs x s) = stopInFlight (request_stop s)"
    by (simp_all add: tick_fp_recorder_fields)
  show "\<forall>rec. mediaRecorderRef s = Some rec \<and> rstate s rec = Some Recording \<and> \<not> stopInFlight s \<longrightarrow>
              rstate (tick_fp ar startTs x s) rec = Some Inactive
              \<and> stopEvents (tick_fp ar startTs x s) = stopEvents s @ [rec]
              \<and> stopInFlight (tick_fp ar startTs x s)"
  proof (intro allI impI)
    fix rec
    assume a: "mediaRecorderRef s = Some rec \<and> rstate s rec = Some Recording \<and> \<not> stopInFlight s"
    then have q: "request_stop s = rec_stop rec (s\<lparr>stopInFlight := True\<rparr>)"
      by (simp add: request_stop_effect)
    have "rec < length (recorders s)"
      using a by (auto simp: rstate_def split: if_splits)
    then show "rstate (tick_fp ar startTs x s) rec = Some Inactive
              \<and> stopEvents (tick_fp ar startTs x s) = stopEvents s @ [rec]
              \<and> stopInFlight (tick_fp ar startTs x s)"
      by (simp add: r1 r2 r3 q rstate_def rec_stop_def)
  qed
  show "recorders (tick_fp ar startTs x s) = recorders s"
    "stopEvents (tick_fp ar startTs x s) = stopEvents s"
    if "stopInFlight s \<or> (\<forall>rec. mediaRecorderRef s = Some rec \<longrightarrow> rstate s rec \<noteq> Some Recording)"
    using that by (auto simp: r1 r2 request_stop_effect split: option.splits)
next
  assume "\<not> (isSpeaking s \<and> \<not> isSpeaking (tick_fp ar startTs x s))"
  then show "recorders (tick_fp ar startTs x s) = recorders s"
    "stopEvents (tick_fp ar startTs x s) = stopEvents s"
    "stopInFlight (tick_fp ar startTs x s) = stopInFlight s"
    by (auto simp: tick_fp_recorder_fields)
qed

text \<open>
  An arithmetic in which a subtraction rounds its result to the nearest whole number, as the
  subtraction of doubles rounds to the nearest double: with the timer armed at 1000.1 and a
  tick at 2500.05 the computed difference is 1500, although the exact one is below it.
\<close>

definition rounding :: arith where
  "rounding = \<lparr>flit = id, fsub = (\<lambda>a b. of_int (round (a - b))), fmul = (*), fadd = (+)\<rparr>"

lemma quiet_tick_rounding:
  assumes "noiseFloor s = Some 0.001" "800.5 \<le> now"
  shows "\<not> above_fp rounding 0 (0.0001, now) s"
    and "noiseFloor (tick_fp rounding 0 (0.0001, now) s) = Some 0.001"
proof -
  have "(800 :: int) \<le> round now"
    using assms(2) by (simp add: round_def le_floor_iff)
  then have "\<not> (of_int (round now) :: real) < 800"
    by simp
  then have c: "calibrate_fp rounding 0 0.0001 now (Some 0.001) = Some 0.001"
    by (simp add: calibrate_fp_def rounding_def)
  show "\<not> above_fp rounding 0 (0.0001, now) s"
    using assms(1) c by (simp add: above_fp_def threshold_fp_def rounding_def)
  show "noiseFloor (tick_fp rounding 0 (0.0001, now) s) = Some 0.001"
    using assms(1) c
    by (auto simp: tick_fp_def Let_def request_stop_fields split: option.splits)
qed

theorem vad_transition_witness:
  "isSpeaking speaking_demo \<and> silenceStart speaking_demo = None
   \<and> all_below_fp rounding 0 [(0.0001, 1000.1), (0.0001, 1500), (0.0001, 2000), (0.0001, 2500.05)]
        speaking_demo
   \<and> isSpeaking (run_ticks_fp rounding 0 [(0.0001, 1000.1), (0.0001, 1500), (0.0001, 2000)]
        speaking_demo)
   \<and> \<not> isSpeaking (run_ticks_fp rounding 0
          [(0.0001, 1000.1), (0.0001, 1500), (0.0001, 2000), (0.0001, 2500.05)] speaking_demo)
   \<and> (2500.05 :: real) - 1000.1 < 1500"
proof -
  have h: "isSpeaking speaking_demo" "silenceStart speaking_demo = None"
    by (simp_all add: speaking_demo_def)
  have n0: "noiseFloor speaking_demo = Some 0.001" by (simp add: speaking_demo_def)
  note q1 = quiet_tick_rounding [OF n0, of "1000.1"]
  note q2 = quiet_tick_rounding [OF q1(2), of 1500]
  note q3 = quiet_tick_rounding [OF q2(2), of 2000]
  note q4 = quiet_tick_rounding [OF q3(2), of "2500.05"]
  have b: "all_below_fp rounding 0
      ((0.0001, 1000.1) # [(0.0001, 1500), (0.0001, 2000)] @ [(0.0001, 2500.05)]) speaking_demo"
    using q1(1) q2(1) q3(1) q4(1) by simp
  have d: "flit rounding 1500 \<le> fsub rounding (snd (0.0001 :: real, 2500.05 :: real)) (snd (0.0001 :: real, 1000.1 :: real))"
    "\<forall>m \<in> set [(0.0001 :: real, 1500 :: real), (0.0001, 2000)].
        fsub rounding (snd m) (snd (0.0001 :: real, 1000.1 :: real)) < flit rounding 1500"
    by (simp_all add: rounding_def round_def)
  from vad_transition [where s = speaking_demo and ar = rounding and startTs = 0
      and r = "(0.0001, 1000.1)" and rs = "[(0.0001, 1500), (0.0001, 2000)]"
      and y = "(0.0001, 2500.05)"] h b d
  have "isSpeaking (run_ticks_fp rounding 0 ((0.0001, 1000.1) # [(0.0001, 1500), (0.0001, 2000)]) speaking_demo)
      \<and> \<not> isSpeaking (run_ticks_fp rounding 0
            ((0.0001, 1000.1) # [(0.0001, 1500), (0.0001, 2000)] @ [(0.0001, 2500.05)]) speaking_demo)"
    by blast
  with h b show ?thesis by simp
qed

text \<open>
  The claim in the words of the specification, for a tick \<open>a\<close> above the threshold followed by
  ticks below it: the state goes from Speaking to Silent at the tick \<open>y\<close> if and only if at
  least 1500 ms have elapsed since the tick \<open>a\<close>, the last one above the threshold (and fewer
  had at the ticks in between).
\<close>

definition spec_silence_since_last_above ::
    "real \<Rightarrow> session \<Rightarrow> real \<times> real \<Rightarrow> (real \<times> real) list \<Rightarrow> real \<times> real \<Rightarrow> bool" where
  "spec_silence_since_last_above startTs s a quiet y =
     (above startTs a s \<and> all_below startTs (quiet @ [y]) (tick startTs a s) \<longrightarrow>
        (isSpeaking (run_ticks startTs (a # quiet) s) \<and> \<not> isSpeaking (run_ticks startTs (a # quiet @ [y]) s)
         \<longleftrightarrow> 1500 \<le> snd y - snd a \<and> (\<forall>m \<in> set quiet. snd m - snd a < 1500)))"

text \<open>
  The claim as stated times the silence from the last tick above the threshold. The source
  arms the timer at the first tick below it: after a tick above the threshold at 1000 ms and
  ticks below it at 2000 ms and 2500 ms, 1500 ms have elapsed since the last tick above the
  threshold, but only 500 ms since the timer was armed, and the state is still Speaking.
\<close>

theorem silence_timer_counterexample:
  "\<not> spec_silence_since_last_above 0 quiet_start (0.01, 1000) [(0.0001, 2000)] (0.0001, 2500)"
proof
  let ?s1 = "tick 0 (0.01, 1000) quiet_start"
  let ?s2 = "tick 0 (0.0001, 2000) ?s1"
  let ?s3 = "tick 0 (0.0001, 2500) ?s2"
  assume c: "spec_silence_since_last_above 0 quiet_start (0.01, 1000) [(0.0001, 2000)] (0.0001, 2500)"
  have a1: "above 0 (0.01, 1000) quiet_start"
    by (simp add: above_def calibrate_def threshold_def CALIBRATION_MS_def MIN_THRESHOLD_RMS_def
        NOISE_MULTIPLIER_def quiet_start_def)
  have b2: "\<not> above 0 (0.0001, 2000) ?s1"
    by (simp add: above_def noiseFloor_tick calibrate_def threshold_def CALIBRATION_MS_def
        MIN_THRESHOLD_RMS_def NOISE_MULTIPLIER_def quiet_start_def)
  have b3: "\<not> above 0 (0.0001, 2500) ?s2"
    by (simp add: above_def noiseFloor_tick calibrate_def threshold_def CALIBRATION_MS_def
        MIN_THRESHOLD_RMS_def NOISE_MULTIPLIER_def quiet_start_def)
  from tick_above [OF a1] have s1: "isSpeaking ?s1" "silenceStart ?s1 = None" by simp_all
  from tick_below_arm [OF b2 s1] have s2: "isSpeaking ?s2" "silenceStart ?s2 = Some 2000" by simp_all
  have "(2500 :: real) - 2000 < SILENCE_DURATION_MS" by (simp add: SILENCE_DURATION_MS_def)
  with tick_below_wait [OF b3 s2, of ] have s3: "isSpeaking ?s3" by simp
  have "all_below 0 ([(0.0001, 2000)] @ [(0.0001, 2500)]) ?s1"
    using b2 b3 by simp
  with c a1 have "isSpeaking (run_ticks 0 ((0.01, 1000) # [(0.0001, 2000)]) quiet_start)
      \<and> \<not> isSpeaking (run_ticks 0 ((0.01, 1000) # [(0.0001, 2000)] @ [(0.0001, 2500)]) quiet_start)"
    by (simp add: spec_silence_since_last_above_def)
  with s3 show False by (simp add: run_ticks_Cons run_ticks_Nil)
qed

subsection \<open>The stop handler\<close>

text \<open>Every recorder that is recording is the current one; so at most one is recording.\<close>

definition single_recorder :: "session \<Rightarrow> bool" where
  "single_recorder s = (\<forall>j. rstate s j = Some Recording \<longrightarrow> mediaRecorderRef s = Some j)"

text \<open>The claim, in the words of the specification: a replacement recorder is created,
  started and current after the stop handler if and only if the session is still active.\<close>

definition replacement_started :: "session \<Rightarrow> session \<Rightarrow> bool" where
  "replacement_started s s' =
     (\<exists>j. length (recorders s) \<le> j \<and> rstate s' j = Some Recording \<and> mediaRecorderRef s' = Some j)"

definition spec_replacement_iff_active :: "recorder_fault \<Rightarrow> session \<Rightarrow> bool" where
  "spec_replacement_iff_active fault s = (replacement_started s (onstop fault s) \<longleftrightarrow> sessionActive s)"

lemma single_recorder_unique:
  "single_recorder s \<Longrightarrow> rstate s j = Some Recording \<Longrightarrow> rstate s k = Some Recording \<Longrightarrow> j = k"
  by (metis option.inject single_recorder_def)

lemma none_recording:
  assumes "single_recorder s" "\<forall>i. mediaRecorderRef s = Some i \<longrightarrow> rstate s i = Some Inactive"
  shows "rstate s j \<noteq> Some Recording"
proof
  assume r: "rstate s j = Some Recording"
  with assms(1) have "mediaRecorderRef s = Some j" by (simp add: single_recorder_def)
  with assms(2) have "rstate s j = Some Inactive" by simp
  with r show False by simp
qed

lemma dispatched_onstop:
  "dispatched (onstop fault s) = (if chunks s = [] then dispatched s else dispatched s @ [chunks s])"
  by (cases fault) (simp_all add: onstop_def sendAudioForAnalysis_def Let_def)

lemma chunks_onstop: "chunks (onstop fault s) = []"
  by (cases fault) (simp_all add: onstop_def sendAudioForAnalysis_def Let_def)

lemma onstop_inactive:
  "\<not> (sessionActive s \<and> streamRef s \<noteq> None) \<Longrightarrow>
     mediaRecorderRef (onstop fault s) = None \<and> recorders (onstop fault s) = recorders s"
  by (auto simp: onstop_def sendAudioForAnalysis_def Let_def)

lemma onstop_restart:
  "sessionActive s \<Longrightarrow> streamRef s \<noteq> None \<Longrightarrow>
     mediaRecorderRef (onstop NoFault s) = Some (length (recorders s))
     \<and> recorders (onstop NoFault s) = recorders s @ [Recording]"
  by (auto simp: onstop_def sendAudioForAnalysis_def Let_def)

lemma onstop_fault:
  "sessionActive s \<Longrightarrow> streamRef s \<noteq> None \<Longrightarrow> fault \<noteq> NoFault \<Longrightarrow>
     mediaRecorderRef (onstop fault s) = mediaRecorderRef s
     \<and> (recorders (onstop fault s) = recorders s \<or> recorders (onstop fault s) = recorders s @ [Inactive])"
  by (cases fault) (auto simp: onstop_def sendAudioForAnalysis_def Let_def)

lemma rstate_cong: "recorders s' = recorders s \<Longrightarrow> rstate s' j = rstate s j"
  by (simp add: rstate_def)

lemma rstate_recorders_append:
  "recorders s' = recorders s @ [st] \<Longrightarrow>
     rstate s' j = (if j = length (recorders s) then Some st else rstate s j)"
  by (auto simp: rstate_def nth_append)

lemma still_none_recording:
  assumes "rstate s j \<noteq> Some Recording"
    and "recorders s' = recorders s \<or> recorders s' = recorders s @ [Inactive]"
  shows "rstate s' j \<noteq> Some Recording"
  using assms(2)
proof
  assume "recorders s' = recorders s"
  then have "rstate s' j = rstate s j" by (rule rstate_cong)
  with assms(1) show ?thesis by simp
next
  assume e: "recorders s' = recorders s @ [Inactive]"
  show ?thesis using assms(1) by (simp add: rstate_recorders_append [OF e])
qed

lemma onstop_replacement_iff:
  assumes "\<And>j. rstate s j \<noteq> Some Recording"
  shows "replacement_started s (onstop fault s)
     \<longleftrightarrow> sessionActive s \<and> streamRef s \<noteq> None \<and> fault = NoFault"
proof (cases "sessionActive s \<and> streamRef s \<noteq> None")
  case False
  from onstop_inactive [OF False, of fault]
  have "mediaRecorderRef (onstop fault s) = None" by simp
  then have "\<not> replacement_started s (onstop fault s)"
    by (simp add: replacement_started_def)
  with False show ?thesis by blast
next
  case True
  show ?thesis
  proof (cases "fault = NoFault")
    case nf: True
    from True onstop_restart [of s] have
      "mediaRecorderRef (onstop NoFault s) = Some (length (recorders s))"
      and r: "recorders (onstop NoFault s) = recorders s @ [Recording]" by simp_all
    then have "replacement_started s (onstop NoFault s)"
      unfolding replacement_started_def
      by (intro exI [of _ "length (recorders s)"]) (simp add: rstate_recorders_append [OF r])
    with True nf show ?thesis by simp
  next
    case f: False
    from True f onstop_fault [of s fault] have
      r: "recorders (onstop fault s) = recorders s \<or> recorders (onstop fault s) = recorders s @ [Inactive]"
      by simp
    have "rstate (onstop fault s) j \<noteq> Some Recording" for j
      using assms [of j] r by (rule still_none_recording)
    then have "\<not> replacement_started s (onstop fault s)"
      by (simp add: replacement_started_def)
    with f show ?thesis by blast
  qed
qed

lemma onstop_single:
  assumes "\<And>j. rstate s j \<noteq> Some Recording"
  shows "single_recorder (onstop fault s)"
proof (cases "sessionActive s \<and> streamRef s \<noteq> None")
  case False
  from onstop_inactive [OF False, of fault]
  have r: "recorders (onstop fault s) = recorders s \<or> recorders (onstop fault s) = recorders s @ [Inactive]"
    by simp
  have "rstate (onstop fault s) j \<noteq> Some Recording" for j
    using assms [of j] r by (rule still_none_recording)
  then show ?thesis by (simp add: single_recorder_def)
next
  case True
  show ?thesis
  proof (cases "fault = NoFault")
    case nf: True
    from True onstop_restart [of s] have
      m: "mediaRecorderRef (onstop NoFault s) = Some (length (recorders s))"
      and r: "recorders (onstop NoFault s) = recorders s @ [Recording]" by simp_all
    have "mediaRecorderRef (onstop NoFault s) = Some j"
      if "rstate (onstop NoFault s) j = Some Recording" for j
      using that assms [of j] m by (simp add: rstate_recorders_append [OF r] split: if_splits)
    then show ?thesis unfolding nf by (simp add: single_recorder_def)
  next
    case f: False
    from True f onstop_fault [of s fault] have
      r: "recorders (onstop fault s) = recorders s \<or> recorders (onstop fault s) = recorders s @ [Inactive]"
      by simp
    have "rstate (onstop fault s) j \<noteq> Some Recording" for j
      using assms [of j] r by (rule still_none_recording)
    then show ?thesis by (simp add: single_recorder_def)
  qed
qed

lemma single_recorder_cong:
  "recorders s' = recorders s \<Longrightarrow> mediaRecorderRef s' = mediaRecorderRef s \<Longrightarrow>
     single_recorder s' = single_recorder s"
  by (simp add: single_recorder_def rstate_def)

lemma rstate_rec_stop_other:
  "rstate (rec_stop i s) j = Some Recording \<Longrightarrow> rstate s j = Some Recording"
  by (cases "i = j") (auto simp: rstate_def rec_stop_def split: if_splits)

lemma single_recorder_rec_stop:
  "single_recorder s \<Longrightarrow> single_recorder (rec_stop i (s\<lparr>stopInFlight := b\<rparr>))"
proof -
  assume a: "single_recorder s"
  have "mediaRecorderRef (rec_stop i (s\<lparr>stopInFlight := b\<rparr>)) = Some j"
    if "rstate (rec_stop i (s\<lparr>stopInFlight := b\<rparr>)) j = Some Recording" for j
  proof -
    have "rstate (s\<lparr>stopInFlight := b\<rparr>) j = rstate s j"
      by (rule rstate_cong) simp
    with rstate_rec_stop_other [OF that] have "rstate s j = Some Recording"
      by simp
    with a show ?thesis by (simp add: single_recorder_def rec_stop_def)
  qed
  then show ?thesis by (simp add: single_recorder_def)
qed

lemma single_recorder_request_stop:
  "single_recorder s \<Longrightarrow> single_recorder (request_stop s)"
  by (auto simp: request_stop_def single_recorder_rec_stop split: option.splits)

lemma mediaRecorderRef_request_stop: "mediaRecorderRef (request_stop s) = mediaRecorderRef s"
  by (auto simp: request_stop_def rec_stop_def split: option.splits)

lemma mediaRecorderRef_tick: "mediaRecorderRef (tick startTs x s) = mediaRecorderRef s"
  by (cases x) (auto simp: tick_def Let_def request_stop_def rec_stop_def split: option.splits)

lemma single_recorder_handlers:
  assumes "single_recorder s"
  shows "single_recorder (handleManualFlush s)" "single_recorder (tick startTs x s)"
    "single_recorder (onstart s)" "single_recorder (ondataavailable d s)"
proof -
  show "single_recorder (handleManualFlush s)"
    using assms by (auto simp: handleManualFlush_def single_recorder_rec_stop split: option.splits)
  show "single_recorder (tick startTs x s)"
  proof (cases "isSpeaking s \<and> \<not> isSpeaking (tick startTs x s)")
    case True
    then have "recorders (tick startTs x s) = recorders (request_stop s)"
      by (simp add: tick_recorder_fields)
    then have "single_recorder (tick startTs x s) = single_recorder (request_stop s)"
      by (rule single_recorder_cong) (simp add: mediaRecorderRef_tick mediaRecorderRef_request_stop)
    with assms show ?thesis by (simp add: single_recorder_request_stop)
  next
    case False
    then have "recorders (tick startTs x s) = recorders s"
      by (auto simp: tick_recorder_fields)
    then have "single_recorder (tick startTs x s) = single_recorder s"
      by (rule single_recorder_cong) (simp add: mediaRecorderRef_tick)
    with assms show ?thesis by simp
  qed
  show "single_recorder (onstart s)"
    using assms by (simp add: onstart_def single_recorder_def rstate_def)
  show "single_recorder (ondataavailable d s)"
    using assms by (simp add: ondataavailable_def single_recorder_def rstate_def)
qed


text \<open>
  Claim C1 (as amended). When the stop handler runs for the recorder that has stopped (no
  recorder is recording, and the current one, if the ref still holds one, is the stopped one),
  the accumulated chunks, if any, are handed to the analysis exactly once, as one segment, and
  the chunk buffer is empty afterwards, so that a second delivery would dispatch nothing. A
  replacement recorder is created, started and made current if and only if the session is
  still active, still holds its stream, and neither the constructor nor \<^verbatim>\<open>start\<close> throws.
  When the session is no longer active the current recorder is cleared and none is created;
  when the constructor or \<^verbatim>\<open>start\<close> throws, the failure is only logged, the ref is left as
  it was and no recorder is recording. In every case at most one recorder is recording
  afterwards, and it is the current one; the flush button, the meter loop and the other
  recorder callbacks keep it so.
\<close>

theorem finalize_then_replace:
  assumes single: "single_recorder s"
    and stopped: "\<forall>i. mediaRecorderRef s = Some i \<longrightarrow> rstate s i = Some Inactive"
  shows "dispatched (onstop fault s) = (if chunks s = [] then dispatched s else dispatched s @ [chunks s])
     \<and> chunks (onstop fault s) = []
     \<and> dispatched (onstop fault' (onstop fault s)) = dispatched (onstop fault s)
     \<and> (replacement_started s (onstop fault s)
          \<longleftrightarrow> sessionActive s \<and> streamRef s \<noteq> None \<and> fault = NoFault)
     \<and> (\<not> (sessionActive s \<and> streamRef s \<noteq> None) \<longrightarrow>
          mediaRecorderRef (onstop fault s) = None \<and> recorders (onstop fault s) = recorders s)
     \<and> (sessionActive s \<and> streamRef s \<noteq> None \<and> fault \<noteq> NoFault \<longrightarrow>
          mediaRecorderRef (onstop fault s) = mediaRecorderRef s
          \<and> (\<forall>j. rstate (onstop fault s) j \<noteq> Some Recording))
     \<and> single_recorder (onstop fault s)
     \<and> (\<forall>j k. rstate (onstop fault s) j = Some Recording \<and> rstate (onstop fault s) k = Some Recording
           \<longrightarrow> j = k)
     \<and> single_recorder (handleManualFlush s) \<and> single_recorder (tick startTs x s)
     \<and> single_recorder (onstart s) \<and> single_recorder (ondataavailable d s)"
proof -
  have none: "rstate s j \<noteq> Some Recording" for j
    using single stopped by (rule none_recording)
  have 1: "dispatched (onstop fault s) = (if chunks s = [] then dispatched s else dispatched s @ [chunks s])"
    by (rule dispatched_onstop)
  have 2: "chunks (onstop fault s) = []" by (rule chunks_onstop)
  have 3: "dispatched (onstop fault' (onstop fault s)) = dispatched (onstop fault s)"
    by (simp add: dispatched_onstop [of fault' "onstop fault s"] 2)
  have 4: "replacement_started s (onstop fault s)
          \<longleftrightarrow> sessionActive s \<and> streamRef s \<noteq> None \<and> fault = NoFault"
    using none by (rule onstop_replacement_iff)
  have 5: "mediaRecorderRef (onstop fault s) = None \<and> recorders (onstop fault s) = recorders s"
    if "\<not> (sessionActive s \<and> streamRef s \<noteq> None)"
    using that by (rule onstop_inactive)
  have 6: "mediaRecorderRef (onstop fault s) = mediaRecorderRef s
          \<and> (\<forall>j. rstate (onstop fault s) j \<noteq> Some Recording)"
    if a: "sessionActive s \<and> streamRef s \<noteq> None \<and> fault \<noteq> NoFault"
  proof -
    from a onstop_fault [of s fault] have m: "mediaRecorderRef (onstop fault s) = mediaRecorderRef s"
      and r: "recorders (onstop fault s) = recorders s \<or> recorders (onstop fault s) = recorders s @ [Inactive]"
      by simp_all
    have "rstate (onstop fault s) j \<noteq> Some Recording" for j
      using none [of j] r by (rule still_none_recording)
    with m show ?thesis by simp
  qed
  have 7: "single_recorder (onstop fault s)"
    using none by (rule onstop_single)
  have 8: "\<forall>j k. rstate (onstop fault s) j = Some Recording \<and> rstate (onstop fault s) k = Some Recording
           \<longrightarrow> j = k"
    using single_recorder_unique [OF 7] by blast
  have 9: "single_recorder (handleManualFlush s)" "single_recorder (tick startTs x s)"
    "single_recorder (onstart s)" "single_recorder (ondataavailable d s)"
    using single by (rule single_recorder_handlers)+
  from 1 2 3 4 5 6 7 8 9 show ?thesis by blast
qed

definition stopped_demo :: session where
  "stopped_demo = \<lparr>sessionActive = True, streamRef = Some 0, mediaRecorderRef = Some 0,
     recorders = [Inactive], chunks = [[1, 2], [3]], dispatched = [], stopEvents = [],
     stopInFlight = True, isSpeaking = False, silenceStart = None, noiseFloor = Some 0.001\<rparr>"

lemma stopped_demo_ok:
  "single_recorder stopped_demo"
  "\<forall>i. mediaRecorderRef stopped_demo = Some i \<longrightarrow> rstate stopped_demo i = Some Inactive"
  by (auto simp: single_recorder_def stopped_demo_def rstate_def)

theorem finalize_then_replace_witness:
  "single_recorder stopped_demo
   \<and> rstate stopped_demo 0 = Some Inactive
   \<and> dispatched (onstop NoFault stopped_demo) = [[[1, 2], [3]]]
   \<and> chunks (onstop NoFault stopped_demo) = []
   \<and> replacement_started stopped_demo (onstop NoFault stopped_demo)
   \<and> single_recorder (onstop NoFault stopped_demo)"
proof -
  have f: "sessionActive stopped_demo" "streamRef stopped_demo \<noteq> None"
    "chunks stopped_demo = [[1, 2], [3]]" "dispatched stopped_demo = []"
    "rstate stopped_demo 0 = Some Inactive"
    by (simp_all add: stopped_demo_def rstate_def)
  from finalize_then_replace [OF stopped_demo_ok, of NoFault]
  have "dispatched (onstop NoFault stopped_demo)
      = (if chunks stopped_demo = [] then dispatched stopped_demo
         else dispatched stopped_demo @ [chunks stopped_demo])"
    and "chunks (onstop NoFault stopped_demo) = []"
    and "replacement_started stopped_demo (onstop NoFault stopped_demo)
          \<longleftrightarrow> sessionActive stopped_demo \<and> streamRef stopped_demo \<noteq> None \<and> NoFault = NoFault"
    and "single_recorder (onstop NoFault stopped_demo)"
    by blast+
  with f stopped_demo_ok(1) show ?thesis by simp
qed

text \<open>
  The claim as stated makes the replacement depend on the session being active alone. With
  an active session whose stream has ended, \<^verbatim>\<open>start\<close> throws, the handler logs the failure,
  and no replacement recorder is started.
\<close>

theorem replacement_fault_counterexample:
  "\<not> spec_replacement_iff_active StartThrows stopped_demo"
proof
  assume "spec_replacement_iff_active StartThrows stopped_demo"
  moreover have "sessionActive stopped_demo" by (simp add: stopped_demo_def)
  ultimately have "replacement_started stopped_demo (onstop StartThrows stopped_demo)"
    by (simp add: spec_replacement_iff_active_def)
  then obtain j where "rstate (onstop StartThrows stopped_demo) j = Some Recording"
    by (auto simp: replacement_started_def)
  moreover have "recorders (onstop StartThrows stopped_demo) = [Inactive, Inactive]"
    by (simp add: onstop_def stopped_demo_def sendAudioForAnalysis_def Let_def)
  ultimately show False
    by (cases j) (auto simp: rstate_def split: if_splits)
qed

end
